theory Spec2Isabelle
  imports Main "HOL-Library.Sublist"
begin

section \<open>The udisks storage plugin (src/storage/plugins/UdisksStorage.cxx)\<close>

text \<open>
  The class \<open>UdisksStorage\<close> bridges synchronous storage calls made on worker threads
  to asynchronous D-Bus requests made on the event-loop thread. Every method body of
  the class runs either under the mutex or on the event-loop thread, so each of them is
  one atomic transition of the object. A method that blocks in \<open>cond.wait\<close> is
  split at the wait: the part up to the wait is one transition, the part after the
  wake-up is another.
\<close>

subsection \<open>Exceptions and D-Bus messages\<close>

text \<open>
  The two exceptions the file throws itself are \<open>std::runtime_error\<close>s with a
  message; everything thrown by the D-Bus layer is a \<open>dbus_error\<close>.
\<close>

datatype error = runtime_error string | dbus_error string

text \<open>\<open>FormatRuntimeError("No such UDisks2 object: %s", id.c_str())\<close>\<close>

definition No_such_object :: "string \<Rightarrow> error" where
  "No_such_object i = runtime_error (''No such UDisks2 object: '' @ i)"

definition Malformed_Mount_response :: error where
  "Malformed_Mount_response = runtime_error ''Malformed 'Mount' response''"

text \<open>
  The macros naming the service, its root object and its interfaces are declared in
  headers outside this file; they are kept symbolic.
\<close>

datatype dbus_name =
    UDISKS2_INTERFACE
  | UDISKS2_PATH
  | DBUS_OM_INTERFACE
  | UDISKS2_FILESYSTEM_INTERFACE
  | Object_path string

datatype dbus_arg = String_arg string | Empty_array | Other_arg

text \<open>
  \<open>ODBus::Message\<close>: a method call (destination, path, interface, method,
  arguments), a method return, or an error reply, on which \<open>CheckThrowError\<close> throws.
\<close>

datatype Message =
    NewMethodCall dbus_name dbus_name dbus_name string "dbus_arg list"
  | MethodReturn "dbus_arg list"
  | ErrorMessage error

fun AppendEmptyArray :: "Message \<Rightarrow> Message" where
  "AppendEmptyArray (NewMethodCall d p i m as) = NewMethodCall d p i m (as @ [Empty_array])"
| "AppendEmptyArray (MethodReturn as) = MethodReturn (as @ [Empty_array])"
| "AppendEmptyArray (ErrorMessage e) = ErrorMessage e"

fun CheckThrowError :: "Message \<Rightarrow> error option" where
  "CheckThrowError (ErrorMessage e) = Some e"
| "CheckThrowError _ = None"

text \<open>
  \<open>ReadMessageIter i(*reply.Get())\<close> stands on the first argument of the message;
  \<open>GetString\<close> is \<open>None\<close> where \<open>i.GetArgType() != DBUS_TYPE_STRING\<close>.
\<close>

fun ReadMessageIter :: "Message \<Rightarrow> dbus_arg list" where
  "ReadMessageIter (NewMethodCall d p i m as) = as"
| "ReadMessageIter (MethodReturn as) = as"
| "ReadMessageIter (ErrorMessage e) = []"

fun GetString :: "dbus_arg list \<Rightarrow> string option" where
  "GetString (String_arg p # as) = Some p"
| "GetString _ = None"

fun is_Mount :: "Message \<Rightarrow> bool" where
  "is_Mount (NewMethodCall d p i m as) = (m = ''Mount'')"
| "is_Mount _ = False"

fun is_GetManagedObjects :: "Message \<Rightarrow> bool" where
  "is_GetManagedObjects (NewMethodCall d p i m as) = (m = ''GetManagedObjects'')"
| "is_GetManagedObjects _ = False"

subsection \<open>Enumerated objects\<close>

text \<open>
  \<open>UDisks2::Object\<close> is declared outside this file, which uses its member
  \<open>path\<close> and its method \<open>IsId\<close> only: an object is these two.
\<close>

record Object =
  path :: string
  IsId :: "string \<Rightarrow> bool"

subsection \<open>The object\<close>

text \<open>
  The delegate is whatever \<open>CreateLocalStorage(Path::FromFS(mount_path))\<close> returns:
  a local storage rooted at the mount point.
\<close>

datatype LocalStorage = CreateLocalStorage string

text \<open>The method bound to a pending \<open>ODBus::AsyncRequest\<close>.\<close>

datatype callback = OnListReply_cb | OnMountNotify_cb | OnUnmountNotify_cb

text \<open>
  The members of the class. \<open>id\<close> is \<open>id_s\<close> here. An \<open>AsyncRequest\<close> is the
  callback it is waiting to invoke, if it is pending; a \<open>DeferEvent\<close> is the flag
  that it is scheduled; \<open>cond\<close> is the set of threads blocked in \<open>cond.wait\<close> and
  not notified since; \<open>dbus_glue\<close> is the list of the messages sent on its
  connection, oldest first. The mutex is implicit in the atomicity of the transitions.
\<close>

record UdisksStorage =
  base_uri :: string
  id_s :: string
  dbus_path :: string
  dbus_glue :: "Message list"
  list_request :: "callback option"
  mount_request :: "callback option"
  cond :: "nat set"
  want_mount :: bool
  mounted_storage :: "LocalStorage option"
  mount_error :: "error option"
  defer_mount :: bool
  defer_unmount :: bool

text \<open>The constructor: every member but the two strings has its default value.\<close>

definition UdisksStorage_new :: "string \<Rightarrow> string \<Rightarrow> UdisksStorage" where
  "UdisksStorage_new b i =
     \<lparr>base_uri = b, id_s = i, dbus_path = [], dbus_glue = [],
      list_request = None, mount_request = None, cond = {},
      want_mount = False, mounted_storage = None, mount_error = None,
      defer_mount = False, defer_unmount = False\<rparr>"

text \<open>
  The outcome of a call that may block: still blocked in \<open>cond.wait\<close>, an exception,
  a returned value, or the dereference of an empty \<open>mounted_storage\<close>.
\<close>

datatype 'a outcome = Blocked | Raised error | Returned 'a | NullDeref

text \<open>
  How a thread enters a blocking method: by calling it, or by continuing in it after
  \<open>cond.wait\<close> has returned with the mutex held again.
\<close>

datatype entry = Call | Wake

subsection \<open>Mounting\<close>

text \<open>
  The tail of \<open>MountWait\<close>: \<open>while (want_mount) cond.wait(mutex);
  if (mount_error) std::rethrow_exception(mount_error);\<close>
\<close>

definition MountWait_loop :: "nat \<Rightarrow> UdisksStorage \<Rightarrow> UdisksStorage \<times> unit outcome" where
  "MountWait_loop t s =
     (if want_mount s then (s\<lparr>cond := insert t (cond s)\<rparr>, Blocked)
      else (case mount_error s of
              Some e \<Rightarrow> (s, Raised e)
            | None \<Rightarrow> (s, Returned ())))"

fun MountWait :: "entry \<Rightarrow> nat \<Rightarrow> UdisksStorage \<Rightarrow> UdisksStorage \<times> unit outcome" where
  "MountWait Call t s =
     (if mounted_storage s \<noteq> None then (s, Returned ())
      else MountWait_loop t
             (if \<not> want_mount s then s\<lparr>want_mount := True, defer_mount := True\<rparr> else s))"
| "MountWait Wake t s = MountWait_loop t s"

text \<open>
  The common handler of \<open>catch (...)\<close> in \<open>OnListReply\<close>, \<open>DeferredMount\<close>
  and \<open>OnMountNotify\<close>.
\<close>

definition mount_failed :: "error \<Rightarrow> UdisksStorage \<Rightarrow> UdisksStorage" where
  "mount_failed e s = s\<lparr>mount_error := Some e, want_mount := False, cond := {}\<rparr>"

text \<open>
  \<open>DeferredMount\<close>. The first argument is the exception thrown inside the
  \<open>try\<close> block by the D-Bus layer (\<open>GetConnection\<close>, \<open>NewMethodCall\<close>,
  \<open>Send\<close>), if any; the request is then not sent.
\<close>

definition DeferredMount :: "error option \<Rightarrow> UdisksStorage \<Rightarrow> UdisksStorage" where
  "DeferredMount thrown s =
     (case thrown of
        Some e \<Rightarrow> mount_failed e s
      | None \<Rightarrow>
          if dbus_path s = [] then
            s\<lparr>dbus_glue := dbus_glue s @
                 [NewMethodCall UDISKS2_INTERFACE UDISKS2_PATH DBUS_OM_INTERFACE
                    ''GetManagedObjects'' []],
              list_request := Some OnListReply_cb\<rparr>
          else
            s\<lparr>dbus_glue := dbus_glue s @
                 [AppendEmptyArray
                    (NewMethodCall UDISKS2_INTERFACE (Object_path (dbus_path s))
                       UDISKS2_FILESYSTEM_INTERFACE ''Mount'' [])],
              mount_request := Some OnMountNotify_cb\<rparr>)"

text \<open>
  \<open>OnListReply\<close>. \<open>ParseObjects\<close> is not part of the sources: all that matters
  of it is the list of objects it passes to the callback and the exception it throws
  afterwards, if any. The third argument is for the nested \<open>DeferredMount\<close>.
\<close>

definition OnListReply ::
  "Object list \<Rightarrow> error option \<Rightarrow> error option \<Rightarrow> UdisksStorage \<Rightarrow> UdisksStorage" where
  "OnListReply objects parse_thrown thrown s =
     (let s1 = s\<lparr>dbus_path :=
                  fold (\<lambda>ob p. if IsId ob (id_s s) then path ob else p) objects (dbus_path s)\<rparr>
      in case parse_thrown of
           Some e \<Rightarrow> mount_failed e s1
         | None \<Rightarrow>
             if dbus_path s1 = [] then mount_failed (No_such_object (id_s s1)) s1
             else DeferredMount thrown s1)"

definition OnMountNotify :: "Message \<Rightarrow> UdisksStorage \<Rightarrow> UdisksStorage" where
  "OnMountNotify reply s =
     (case CheckThrowError reply of
        Some e \<Rightarrow> mount_failed e s
      | None \<Rightarrow>
          (case GetString (ReadMessageIter reply) of
             None \<Rightarrow> mount_failed Malformed_Mount_response s
           | Some mount_path \<Rightarrow>
               s\<lparr>mounted_storage := Some (CreateLocalStorage mount_path),
                 mount_error := None, want_mount := False, cond := {}\<rparr>))"

subsection \<open>Unmounting\<close>

definition UnmountWait_loop :: "nat \<Rightarrow> UdisksStorage \<Rightarrow> UdisksStorage \<times> unit outcome" where
  "UnmountWait_loop t s =
     (if mounted_storage s \<noteq> None then (s\<lparr>cond := insert t (cond s)\<rparr>, Blocked)
      else (case mount_error s of
              Some e \<Rightarrow> (s, Raised e)
            | None \<Rightarrow> (s, Returned ())))"

fun UnmountWait :: "entry \<Rightarrow> nat \<Rightarrow> UdisksStorage \<Rightarrow> UdisksStorage \<times> unit outcome" where
  "UnmountWait Call t s =
     (if mounted_storage s = None then (s, Returned ())
      else UnmountWait_loop t (s\<lparr>defer_unmount := True\<rparr>))"
| "UnmountWait Wake t s = UnmountWait_loop t s"

text \<open>
  The common handler of \<open>catch (...)\<close> in \<open>DeferredUnmount\<close> and
  \<open>OnUnmountNotify\<close>.
\<close>

definition unmount_failed :: "error \<Rightarrow> UdisksStorage \<Rightarrow> UdisksStorage" where
  "unmount_failed e s = s\<lparr>mount_error := Some e, mounted_storage := None, cond := {}\<rparr>"

definition DeferredUnmount :: "error option \<Rightarrow> UdisksStorage \<Rightarrow> UdisksStorage" where
  "DeferredUnmount thrown s =
     (case thrown of
        Some e \<Rightarrow> unmount_failed e s
      | None \<Rightarrow>
          s\<lparr>dbus_glue := dbus_glue s @
               [AppendEmptyArray
                  (NewMethodCall UDISKS2_INTERFACE (Object_path (dbus_path s))
                     UDISKS2_FILESYSTEM_INTERFACE ''Unmount'' [])],
            mount_request := Some OnUnmountNotify_cb\<rparr>)"

definition OnUnmountNotify :: "Message \<Rightarrow> UdisksStorage \<Rightarrow> UdisksStorage" where
  "OnUnmountNotify reply s =
     (case CheckThrowError reply of
        Some e \<Rightarrow> unmount_failed e s
      | None \<Rightarrow> s\<lparr>mount_error := None, mounted_storage := None, cond := {}\<rparr>)"

subsection \<open>The storage interface\<close>

text \<open>
  The methods of the delegate are virtual methods of a class outside this file; each
  facade method takes the delegate's method as its first argument. \<open>GetInfo\<close> and
  \<open>OpenDirectory\<close> of the delegate may throw, \<open>MapUTF8\<close> and \<open>MapFS\<close> are
  \<open>noexcept\<close>; an \<open>AllocatedPath\<close> is \<open>None\<close> where it is \<open>nullptr\<close>.
  Each facade method dereferences \<open>mounted_storage\<close> once \<open>MountWait\<close> has
  returned, without looking whether it is set: where it is not, the outcome is
  \<open>NullDeref\<close>.
\<close>

definition GetInfo ::
  "(LocalStorage \<Rightarrow> string \<Rightarrow> bool \<Rightarrow> error + 'i) \<Rightarrow> string \<Rightarrow> bool \<Rightarrow>
   entry \<Rightarrow> nat \<Rightarrow> UdisksStorage \<Rightarrow> UdisksStorage \<times> 'i outcome" where
  "GetInfo backend uri_utf8 follow en t s =
     (case MountWait en t s of
        (s', Blocked) \<Rightarrow> (s', Blocked)
      | (s', Raised e) \<Rightarrow> (s', Raised e)
      | (s', NullDeref) \<Rightarrow> (s', NullDeref)
      | (s', Returned u) \<Rightarrow>
          (case mounted_storage s' of
             None \<Rightarrow> (s', NullDeref)
           | Some d \<Rightarrow>
               (case backend d uri_utf8 follow of
                  Inl e \<Rightarrow> (s', Raised e)
                | Inr r \<Rightarrow> (s', Returned r))))"

definition OpenDirectory ::
  "(LocalStorage \<Rightarrow> string \<Rightarrow> error + 'd) \<Rightarrow> string \<Rightarrow>
   entry \<Rightarrow> nat \<Rightarrow> UdisksStorage \<Rightarrow> UdisksStorage \<times> 'd outcome" where
  "OpenDirectory backend uri_utf8 en t s =
     (case MountWait en t s of
        (s', Blocked) \<Rightarrow> (s', Blocked)
      | (s', Raised e) \<Rightarrow> (s', Raised e)
      | (s', NullDeref) \<Rightarrow> (s', NullDeref)
      | (s', Returned u) \<Rightarrow>
          (case mounted_storage s' of
             None \<Rightarrow> (s', NullDeref)
           | Some d \<Rightarrow>
               (case backend d uri_utf8 of
                  Inl e \<Rightarrow> (s', Raised e)
                | Inr r \<Rightarrow> (s', Returned r))))"

definition MapFS ::
  "(LocalStorage \<Rightarrow> string \<Rightarrow> string option) \<Rightarrow> string \<Rightarrow>
   entry \<Rightarrow> nat \<Rightarrow> UdisksStorage \<Rightarrow> UdisksStorage \<times> string option outcome" where
  "MapFS backend uri_utf8 en t s =
     (case MountWait en t s of
        (s', Blocked) \<Rightarrow> (s', Blocked)
      | (s', Raised e) \<Rightarrow> (s', Returned None)
      | (s', NullDeref) \<Rightarrow> (s', NullDeref)
      | (s', Returned u) \<Rightarrow>
          (case mounted_storage s' of
             None \<Rightarrow> (s', NullDeref)
           | Some d \<Rightarrow> (s', Returned (backend d uri_utf8))))"

text \<open>
  \<open>MapUTF8\<close>. \<open>PathTraitsUTF8::Build\<close> is not part of the sources and is the
  first argument.
\<close>

definition MapUTF8 ::
  "(string \<Rightarrow> string \<Rightarrow> string) \<Rightarrow> (LocalStorage \<Rightarrow> string \<Rightarrow> string) \<Rightarrow> string \<Rightarrow>
   entry \<Rightarrow> nat \<Rightarrow> UdisksStorage \<Rightarrow> UdisksStorage \<times> string outcome" where
  "MapUTF8 Build backend uri_utf8 en t s =
     (case MountWait en t s of
        (s', Blocked) \<Rightarrow> (s', Blocked)
      | (s', Raised e) \<Rightarrow>
          (s', Returned (if uri_utf8 = [] then base_uri s' else Build (base_uri s') uri_utf8))
      | (s', NullDeref) \<Rightarrow> (s', NullDeref)
      | (s', Returned u) \<Rightarrow>
          (case mounted_storage s' of
             None \<Rightarrow> (s', NullDeref)
           | Some d \<Rightarrow> (s', Returned (backend d uri_utf8))))"

text \<open>\<open>MapToRelativeUTF8\<close>, with \<open>PathTraitsUTF8::Relative\<close> as its first argument.\<close>

definition MapToRelativeUTF8 ::
  "(string \<Rightarrow> string \<Rightarrow> string option) \<Rightarrow> string \<Rightarrow> UdisksStorage \<Rightarrow> string option" where
  "MapToRelativeUTF8 Relative uri_utf8 s = Relative (base_uri s) uri_utf8"

subsection \<open>The factory\<close>

text \<open>
  Modelled from the spec: \<open>StringAfterPrefix\<close> (util/StringCompare.hxx) is not part
  of the sources. The spec's construction surface accepts
  \<open>scheme://volume-id[/relative-path]\<close>: the function returns what follows the prefix,
  and nothing where the string does not begin with it.
\<close>

definition StringAfterPrefix :: "string \<Rightarrow> string \<Rightarrow> string option" where
  "StringAfterPrefix s p = (if prefix p s then Some (drop (length p) s) else None)"

text \<open>\<open>strchr\<close>: the suffix that begins at the first occurrence of the character.\<close>

definition strchr :: "string \<Rightarrow> char \<Rightarrow> string option" where
  "strchr s ch = (case dropWhile (\<lambda>c. c \<noteq> ch) s of [] \<Rightarrow> None | r \<Rightarrow> Some r)"

text \<open>
  \<open>CreateUdisksStorageURI\<close>. The pair computed first is \<open>id\<close> and
  \<open>relative_path\<close>; the latter is not used (\<open>// TODO: use relative_path\<close>).
\<close>

definition CreateUdisksStorageURI :: "string \<Rightarrow> UdisksStorage option" where
  "CreateUdisksStorageURI uri =
     (case StringAfterPrefix uri ''udisks://'' of
        None \<Rightarrow> None
      | Some id_begin \<Rightarrow>
          (let (i, relative_path) =
                 (case strchr id_begin CHR ''/'' of
                    None \<Rightarrow> (id_begin, [])
                  | Some r \<Rightarrow> (take (length id_begin - length r) id_begin, tl r))
           in Some (UdisksStorage_new uri i)))"

subsection \<open>Threads and the event loop\<close>

text \<open>
  The object together with its callers: the threads that are inside \<open>MountWait\<close> or
  \<open>UnmountWait\<close> (blocked, or notified and not yet running again), and the outcomes
  of the calls that have completed, oldest first.
\<close>

record system =
  storage :: UdisksStorage
  in_MountWait :: "nat set"
  in_UnmountWait :: "nat set"
  results :: "(nat \<times> unit outcome) list"

definition system_new :: "string \<Rightarrow> string \<Rightarrow> system" where
  "system_new b i =
     \<lparr>storage = UdisksStorage_new b i, in_MountWait = {}, in_UnmountWait = {}, results = []\<rparr>"

text \<open>
  What can happen next. A thread calls one of the two blocking methods or continues in
  it after a wake-up; a blocked thread wakes up spuriously; the event loop runs a
  scheduled \<open>DeferEvent\<close> or delivers the reply to a pending request. The
  arguments of the event-loop steps are what the D-Bus layer does in them: the
  exception it throws, if any, the reply, the objects parsed from it. Of the destructor
  only its call of \<open>UnmountWait\<close> is a step; its cancelling of pending requests is
  not modelled.
\<close>

datatype event =
    Thread_MountWait entry nat
  | Thread_UnmountWait entry nat
  | Spurious_wakeup nat
  | Loop_DeferredMount "error option"
  | Loop_DeferredUnmount "error option"
  | Loop_list_reply "Object list" "error option" "error option"
  | Loop_mount_reply Message

definition in_MountWait_after :: "nat \<Rightarrow> UdisksStorage \<times> unit outcome \<Rightarrow> system \<Rightarrow> system" where
  "in_MountWait_after t sr c =
     c\<lparr>storage := fst sr,
       in_MountWait := (if snd sr = Blocked then insert t (in_MountWait c) else in_MountWait c - {t}),
       results := (if snd sr = Blocked then results c else results c @ [(t, snd sr)])\<rparr>"

definition in_UnmountWait_after :: "nat \<Rightarrow> UdisksStorage \<times> unit outcome \<Rightarrow> system \<Rightarrow> system" where
  "in_UnmountWait_after t sr c =
     c\<lparr>storage := fst sr,
       in_UnmountWait := (if snd sr = Blocked then insert t (in_UnmountWait c) else in_UnmountWait c - {t}),
       results := (if snd sr = Blocked then results c else results c @ [(t, snd sr)])\<rparr>"

text \<open>
  One step, \<open>None\<close> where the event cannot happen: a thread inside a blocking method
  calls nothing else, and continues only once it is no longer in the wait set of
  \<open>cond\<close>; \<open>UnmountWait\<close>, which only the destructor calls, is not called while an
  unmount request is pending; a \<open>DeferEvent\<close> runs when scheduled, and is no longer
  scheduled then; a reply is delivered to the callback of the pending request, which is
  no longer pending then.
\<close>

fun step :: "event \<Rightarrow> system \<Rightarrow> system option" where
  "step (Thread_MountWait Call t) c =
     (if t \<in> in_MountWait c \<union> in_UnmountWait c then None
      else Some (in_MountWait_after t (MountWait Call t (storage c)) c))"
| "step (Thread_MountWait Wake t) c =
     (if t \<in> in_MountWait c \<and> t \<notin> cond (storage c)
      then Some (in_MountWait_after t (MountWait Wake t (storage c)) c) else None)"
| "step (Thread_UnmountWait Call t) c =
     (if t \<in> in_MountWait c \<union> in_UnmountWait c \<or>
         mount_request (storage c) = Some OnUnmountNotify_cb
      then None
      else Some (in_UnmountWait_after t (UnmountWait Call t (storage c)) c))"
| "step (Thread_UnmountWait Wake t) c =
     (if t \<in> in_UnmountWait c \<and> t \<notin> cond (storage c)
      then Some (in_UnmountWait_after t (UnmountWait Wake t (storage c)) c) else None)"
| "step (Spurious_wakeup t) c =
     (if t \<in> cond (storage c)
      then Some (c\<lparr>storage := (storage c)\<lparr>cond := cond (storage c) - {t}\<rparr>\<rparr>) else None)"
| "step (Loop_DeferredMount thrown) c =
     (if defer_mount (storage c)
      then Some (c\<lparr>storage := DeferredMount thrown ((storage c)\<lparr>defer_mount := False\<rparr>)\<rparr>)
      else None)"
| "step (Loop_DeferredUnmount thrown) c =
     (if defer_unmount (storage c)
      then Some (c\<lparr>storage := DeferredUnmount thrown ((storage c)\<lparr>defer_unmount := False\<rparr>)\<rparr>)
      else None)"
| "step (Loop_list_reply objects parse_thrown thrown) c =
     (if list_request (storage c) = Some OnListReply_cb
      then Some (c\<lparr>storage :=
                     OnListReply objects parse_thrown thrown ((storage c)\<lparr>list_request := None\<rparr>)\<rparr>)
      else None)"
| "step (Loop_mount_reply reply) c =
     (case mount_request (storage c) of
        Some OnMountNotify_cb \<Rightarrow>
          Some (c\<lparr>storage := OnMountNotify reply ((storage c)\<lparr>mount_request := None\<rparr>)\<rparr>)
      | Some OnUnmountNotify_cb \<Rightarrow>
          Some (c\<lparr>storage := OnUnmountNotify reply ((storage c)\<lparr>mount_request := None\<rparr>)\<rparr>)
      | _ \<Rightarrow> None)"

fun run :: "event list \<Rightarrow> system \<Rightarrow> system option" where
  "run [] c = Some c"
| "run (e # es) c = (case step e c of None \<Rightarrow> None | Some c' \<Rightarrow> run es c')"

text \<open>A run during which the mount-requested flag is set before every step.\<close>

fun pending_run :: "event list \<Rightarrow> system \<Rightarrow> system option" where
  "pending_run [] c = Some c"
| "pending_run (e # es) c =
     (if want_mount (storage c)
      then (case step e c of None \<Rightarrow> None | Some c' \<Rightarrow> pending_run es c')
      else None)"

definition Mount_requests :: "UdisksStorage \<Rightarrow> nat" where
  "Mount_requests s = length (filter is_Mount (dbus_glue s))"

definition GetManagedObjects_requests :: "UdisksStorage \<Rightarrow> nat" where
  "GetManagedObjects_requests s = length (filter is_GetManagedObjects (dbus_glue s))"

subsection \<open>The lifecycle state of the spec\<close>

text \<open>
  The class has no state member; the four states of the spec are read off its members.
  \<open>UnmountPending\<close> lasts from the scheduling of the deferred unmount to the reply
  to the unmount request, and is read off these two members alone;
  \<open>MountPending\<close> is the mount-requested flag, which \<open>MountWait\<close> waits on.
  With neither, nothing but the delegate tells \<open>Mounted\<close> from \<open>Idle\<close>.
\<close>

datatype lifecycle = Idle | MountPending | Mounted | UnmountPending

definition unmount_in_progress :: "UdisksStorage \<Rightarrow> bool" where
  "unmount_in_progress s = (defer_unmount s \<or> mount_request s = Some OnUnmountNotify_cb)"

definition lifecycle_state :: "UdisksStorage \<Rightarrow> lifecycle" where
  "lifecycle_state s =
     (if unmount_in_progress s then UnmountPending
      else if want_mount s then MountPending
      else if mounted_storage s = None then Idle
      else Mounted)"

text \<open>
  The transitions of the spec's state machine: \<open>Idle\<close> to \<open>MountPending\<close>,
  \<open>MountPending\<close> to \<open>Mounted\<close> or back to \<open>Idle\<close>, \<open>Mounted\<close> to
  \<open>UnmountPending\<close>, \<open>UnmountPending\<close> to \<open>Idle\<close>; or no change.
\<close>

fun lifecycle_transition :: "lifecycle \<Rightarrow> lifecycle \<Rightarrow> bool" where
  "lifecycle_transition Idle MountPending = True"
| "lifecycle_transition MountPending Idle = True"
| "lifecycle_transition MountPending Mounted = True"
| "lifecycle_transition Mounted UnmountPending = True"
| "lifecycle_transition UnmountPending Idle = True"
| "lifecycle_transition x y = (x = y)"

subsection \<open>The reachable shapes of the object\<close>

text \<open>
  The members that drive the state machine: the mount-requested flag, the scheduled
  deferred mount, the two request slots, the scheduled deferred unmount, and whether
  there is a delegate.
\<close>

definition shape ::
  "UdisksStorage \<Rightarrow> bool \<times> bool \<times> callback option \<times> callback option \<times> bool \<times> bool" where
  "shape s =
     (want_mount s, defer_mount s, list_request s, mount_request s, defer_unmount s,
      mounted_storage s \<noteq> None)"

text \<open>
  The invariant of the state machine. The object is in one of seven shapes: at rest;
  mount scheduled; enumeration pending; mount pending; mounted; unmount scheduled;
  unmount pending. An enumeration is pending only while the object path is unknown, a
  mount or unmount request and a delegate exist only once it is known, and a delegate
  excludes a recorded error.
\<close>

definition Inv :: "UdisksStorage \<Rightarrow> bool" where
  "Inv s \<longleftrightarrow>
     shape s \<in>
       {(False, False, None, None, False, False),
        (True, True, None, None, False, False),
        (True, False, Some OnListReply_cb, None, False, False),
        (True, False, None, Some OnMountNotify_cb, False, False),
        (False, False, None, None, False, True),
        (False, False, None, None, True, True),
        (False, False, None, Some OnUnmountNotify_cb, False, True)} \<and>
     (list_request s \<noteq> None \<longrightarrow> dbus_path s = []) \<and>
     (mount_request s \<noteq> None \<or> mounted_storage s \<noteq> None \<longrightarrow> dbus_path s \<noteq> []) \<and>
     (mounted_storage s \<noteq> None \<longrightarrow> mount_error s = None)"

text \<open>
  How many \<open>Mount\<close> requests the attempt under way can still send: none once its
  request is pending.
\<close>

definition Mount_to_send :: "UdisksStorage \<Rightarrow> nat" where
  "Mount_to_send s = (if mount_request s = Some OnMountNotify_cb then 0 else 1)"

text \<open>
  What one or more steps made while the mount-requested flag is set do to the number
  of \<open>Mount\<close> requests: they send at most the one that is still to be sent; while
  the flag stays set, what has been sent and what is still to be sent add up to the
  same; and where they end with a delegate, the one to be sent has been sent.
\<close>

definition Mount_bound :: "UdisksStorage \<Rightarrow> UdisksStorage \<Rightarrow> bool" where
  "Mount_bound s s' \<longleftrightarrow>
     Mount_requests s' \<le> Mount_requests s + Mount_to_send s \<and>
     (want_mount s' \<longrightarrow>
        Mount_requests s' + Mount_to_send s' = Mount_requests s + Mount_to_send s) \<and>
     (mounted_storage s' \<noteq> None \<longrightarrow>
        Mount_requests s' = Mount_requests s + Mount_to_send s)"

text \<open>
  The steps that can change what a waiter of \<open>MountWait\<close> finds once the flag is
  cleared, apart from a call that sets the flag again: the deferred unmount and the
  replies. A settled run has none of them and ends every step with the flag clear.
\<close>

fun unmount_or_reply :: "event \<Rightarrow> bool" where
  "unmount_or_reply (Loop_DeferredUnmount thrown) = True"
| "unmount_or_reply (Loop_list_reply objects parse_thrown thrown) = True"
| "unmount_or_reply (Loop_mount_reply reply) = True"
| "unmount_or_reply e = False"

fun settled_run :: "event list \<Rightarrow> system \<Rightarrow> system option" where
  "settled_run [] c = Some c"
| "settled_run (e # es) c =
     (if unmount_or_reply e then None
      else (case step e c of
              None \<Rightarrow> None
            | Some c' \<Rightarrow> if want_mount (storage c') then None else settled_run es c'))"

text \<open>
  What a thread finds when it continues in \<open>MountWait\<close> with the flag cleared.
\<close>

definition wake_outcome :: "UdisksStorage \<Rightarrow> unit outcome" where
  "wake_outcome s = (case mount_error s of None \<Rightarrow> Returned () | Some e \<Rightarrow> Raised e)"

subsection \<open>Example runs\<close>

text \<open>
  The volume \<open>abc\<close>, the enumerated object that matches it, and the run in which
  thread 1 asks for the mount, the enumeration finds the object, the service mounts it
  at \<open>/media/abc\<close> and thread 1 wakes up.
\<close>

definition abc_object :: Object where
  "abc_object =
     \<lparr>path = ''/org/freedesktop/UDisks2/block_devices/sdb1'', IsId = (\<lambda>i. i = ''abc'')\<rparr>"

definition abc_new :: system where
  "abc_new = system_new ''udisks://abc'' ''abc''"

definition mount_abc :: "event list" where
  "mount_abc =
     [Thread_MountWait Call 1, Loop_DeferredMount None,
      Loop_list_reply [abc_object] None None,
      Loop_mount_reply (MethodReturn [String_arg ''/media/abc'']),
      Thread_MountWait Wake 1]"

text \<open>
  The same run followed by thread 2 asking for the unmount and the event loop sending
  the request; the start of a mount attempt, up to the enumeration request; an object
  that does not match the volume; an error reply to the unmount request; an error of
  the enumeration.
\<close>

definition unmount_abc :: "event list" where
  "unmount_abc = mount_abc @ [Thread_UnmountWait Call 2, Loop_DeferredUnmount None]"

definition busy :: Message where
  "busy = ErrorMessage (dbus_error ''org.freedesktop.UDisks2.Error.DeviceBusy'')"

definition resolve_abc :: "event list" where
  "resolve_abc = [Thread_MountWait Call 1, Loop_DeferredMount None]"

definition xyz_object :: Object where
  "xyz_object =
     \<lparr>path = ''/org/freedesktop/UDisks2/block_devices/sdc1'', IsId = (\<lambda>i. i = ''xyz'')\<rparr>"

definition service_unknown :: error where
  "service_unknown = dbus_error ''org.freedesktop.DBus.Error.ServiceUnknown''"

text \<open>
  A delegate whose methods return what they were called with, and a \<open>Build\<close> that
  joins with a slash; the run in which the enumeration does not find \<open>abc\<close>.
\<close>

fun echo_GetInfo :: "LocalStorage \<Rightarrow> string \<Rightarrow> bool \<Rightarrow> error + LocalStorage \<times> string \<times> bool" where
  "echo_GetInfo d uri_utf8 follow = Inr (d, uri_utf8, follow)"

fun echo_OpenDirectory :: "LocalStorage \<Rightarrow> string \<Rightarrow> error + LocalStorage \<times> string" where
  "echo_OpenDirectory d uri_utf8 = Inr (d, uri_utf8)"

fun echo_MapFS :: "LocalStorage \<Rightarrow> string \<Rightarrow> string option" where
  "echo_MapFS (CreateLocalStorage root) uri_utf8 = Some (root @ ''/'' @ uri_utf8)"

fun echo_MapUTF8 :: "LocalStorage \<Rightarrow> string \<Rightarrow> string" where
  "echo_MapUTF8 (CreateLocalStorage root) uri_utf8 = root @ ''/'' @ uri_utf8"

definition slash_Build :: "string \<Rightarrow> string \<Rightarrow> string" where
  "slash_Build a b = a @ ''/'' @ b"

definition no_abc :: "event list" where
  "no_abc = resolve_abc @ [Loop_list_reply [xyz_object] None None]"

text \<open>
  Two callers and an enumeration without \<open>abc\<close>; two callers of an attempt that
  the service refuses, the first of which wakes up before a third caller starts the
  next attempt and the second after it; two callers up to the failure of the
  enumeration; the steps of a successful attempt that follow the first call.
\<close>

definition mount_refused :: Message where
  "mount_refused = ErrorMessage (dbus_error ''org.freedesktop.UDisks2.Error.Failed'')"

definition two_callers_no_object :: "event list" where
  "two_callers_no_object =
     [Thread_MountWait Call 1, Thread_MountWait Call 2, Loop_DeferredMount None,
      Loop_list_reply [xyz_object] None None,
      Thread_MountWait Wake 1, Thread_MountWait Wake 2]"

definition late_waiter :: "event list" where
  "late_waiter =
     [Thread_MountWait Call 1, Thread_MountWait Call 2, Loop_DeferredMount None,
      Loop_list_reply [abc_object] None None, Loop_mount_reply mount_refused,
      Thread_MountWait Wake 1,
      Thread_MountWait Call 3, Loop_DeferredMount None,
      Loop_mount_reply (MethodReturn [String_arg ''/media/abc'']),
      Thread_MountWait Wake 2, Thread_MountWait Wake 3]"

definition two_callers_fail :: "event list" where
  "two_callers_fail =
     [Thread_MountWait Call 1, Thread_MountWait Call 2, Loop_DeferredMount None,
      Loop_list_reply [xyz_object] None None]"

definition two_callers :: "event list" where
  "two_callers =
     [Thread_MountWait Call 2, Loop_DeferredMount None,
      Loop_list_reply [abc_object] None None,
      Loop_mount_reply (MethodReturn [String_arg ''/media/abc''])]"

section \<open>The invariant\<close>

text \<open>Every transition of the object keeps the invariant, hence every run does.\<close>

lemma Inv_new: "Inv (UdisksStorage_new b i)"
  by (simp add: Inv_def shape_def UdisksStorage_new_def)

lemma Inv_MountWait: "Inv s \<Longrightarrow> Inv (fst (MountWait en t s))"
  by (cases en) (auto simp: Inv_def shape_def MountWait_loop_def split: option.splits)

lemma Inv_UnmountWait_Wake: "Inv s \<Longrightarrow> Inv (fst (UnmountWait Wake t s))"
  by (auto simp: Inv_def shape_def UnmountWait_loop_def split: option.splits)

lemma Inv_UnmountWait_Call:
  "Inv s \<Longrightarrow> mount_request s \<noteq> Some OnUnmountNotify_cb \<Longrightarrow>
   Inv (fst (UnmountWait Call t s))"
  by (auto simp: Inv_def shape_def UnmountWait_loop_def split: option.splits)

lemma Inv_cond: "Inv s \<Longrightarrow> Inv (s\<lparr>cond := X\<rparr>)"
  by (simp add: Inv_def shape_def)

lemma Inv_DeferredMount:
  "Inv s \<Longrightarrow> defer_mount s \<Longrightarrow> Inv (DeferredMount thrown (s\<lparr>defer_mount := False\<rparr>))"
  by (auto simp: Inv_def shape_def DeferredMount_def mount_failed_def
           split: option.splits)

lemma Inv_DeferredUnmount:
  "Inv s \<Longrightarrow> defer_unmount s \<Longrightarrow> Inv (DeferredUnmount thrown (s\<lparr>defer_unmount := False\<rparr>))"
  by (auto simp: Inv_def shape_def DeferredUnmount_def unmount_failed_def
           split: option.splits)

lemma Inv_OnListReply:
  "Inv s \<Longrightarrow> list_request s = Some OnListReply_cb \<Longrightarrow>
   Inv (OnListReply objects parse_thrown thrown (s\<lparr>list_request := None\<rparr>))"
  by (auto simp: Inv_def shape_def OnListReply_def DeferredMount_def mount_failed_def Let_def
           split: option.splits)

lemma Inv_OnMountNotify:
  "Inv s \<Longrightarrow> mount_request s = Some OnMountNotify_cb \<Longrightarrow>
   Inv (OnMountNotify reply (s\<lparr>mount_request := None\<rparr>))"
  by (auto simp: Inv_def shape_def OnMountNotify_def mount_failed_def
           split: option.splits)

lemma Inv_OnUnmountNotify:
  "Inv s \<Longrightarrow> mount_request s = Some OnUnmountNotify_cb \<Longrightarrow>
   Inv (OnUnmountNotify reply (s\<lparr>mount_request := None\<rparr>))"
  by (auto simp: Inv_def shape_def OnUnmountNotify_def unmount_failed_def
           split: option.splits)

text \<open>
  A request is sent only through a slot that is not pending: into \<open>list_request\<close> or
  \<open>mount_request\<close> by the deferred mount, into \<open>mount_request\<close> by the mount that
  follows the enumeration and by the deferred unmount.
\<close>

lemma Inv_slot_free:
  "Inv s \<Longrightarrow>
   (defer_mount s \<longrightarrow> list_request s = None \<and> mount_request s = None) \<and>
   (list_request s \<noteq> None \<longrightarrow> mount_request s = None) \<and>
   (defer_unmount s \<longrightarrow> mount_request s = None)"
  by (auto simp: Inv_def shape_def)

lemma Inv_step: "Inv (storage c) \<Longrightarrow> step e c = Some c' \<Longrightarrow> Inv (storage c')"
proof (induction e c rule: step.induct)
  case (1 t c)
  then show ?case
    using Inv_MountWait [of "storage c" Call t]
    by (auto simp: in_MountWait_after_def split: if_splits)
next
  case (2 t c)
  then show ?case
    using Inv_MountWait [of "storage c" Wake t]
    by (auto simp: in_MountWait_after_def split: if_splits)
next
  case (3 t c)
  then show ?case
    using Inv_UnmountWait_Call [of "storage c" t]
    by (auto simp: in_UnmountWait_after_def split: if_splits)
next
  case (4 t c)
  then show ?case
    using Inv_UnmountWait_Wake [of "storage c" t]
    by (auto simp: in_UnmountWait_after_def split: if_splits)
next
  case (5 t c)
  then show ?case
    by (auto simp: Inv_cond split: if_splits)
next
  case (6 thrown c)
  then show ?case
    by (auto simp: Inv_DeferredMount split: if_splits)
next
  case (7 thrown c)
  then show ?case
    by (auto simp: Inv_DeferredUnmount split: if_splits)
next
  case (8 objects parse_thrown thrown c)
  then show ?case
    by (auto simp: Inv_OnListReply split: if_splits)
next
  case (9 reply c)
  then show ?case
    by (auto simp: Inv_OnMountNotify Inv_OnUnmountNotify split: option.splits callback.splits)
qed

lemma Inv_run: "Inv (storage c) \<Longrightarrow> run es c = Some c' \<Longrightarrow> Inv (storage c')"
proof (induction es arbitrary: c)
  case Nil
  then show ?case by simp
next
  case (Cons e es)
  then show ?case
    by (auto split: option.splits dest: Inv_step)
qed

lemma Inv_reachable: "run es (system_new b i) = Some c \<Longrightarrow> Inv (storage c)"
  using Inv_run [of "system_new b i" es c] by (simp add: system_new_def Inv_new)


lemma Mount_bound_MountWait:
  "Inv s \<Longrightarrow> want_mount s \<Longrightarrow> Mount_bound s (fst (MountWait en t s))"
  by (cases en)
     (auto simp: Inv_def shape_def Mount_bound_def Mount_requests_def Mount_to_send_def
                 MountWait_loop_def)

lemma Mount_bound_UnmountWait:
  "Inv s \<Longrightarrow> want_mount s \<Longrightarrow> Mount_bound s (fst (UnmountWait en t s))"
  by (cases en)
     (auto simp: Inv_def shape_def Mount_bound_def Mount_requests_def Mount_to_send_def
                 UnmountWait_loop_def split: option.splits)

lemma Mount_bound_cond: "Inv s \<Longrightarrow> want_mount s \<Longrightarrow> Mount_bound s (s\<lparr>cond := X\<rparr>)"
  by (auto simp: Inv_def shape_def Mount_bound_def Mount_requests_def Mount_to_send_def)

lemma Mount_bound_DeferredMount:
  "Inv s \<Longrightarrow> defer_mount s \<Longrightarrow> Mount_bound s (DeferredMount thrown (s\<lparr>defer_mount := False\<rparr>))"
  by (auto simp: Inv_def shape_def Mount_bound_def Mount_requests_def Mount_to_send_def
                 DeferredMount_def mount_failed_def split: option.splits)

lemma Mount_bound_OnListReply:
  "Inv s \<Longrightarrow> list_request s = Some OnListReply_cb \<Longrightarrow>
   Mount_bound s (OnListReply objects parse_thrown thrown (s\<lparr>list_request := None\<rparr>))"
  by (auto simp: Inv_def shape_def Mount_bound_def Mount_requests_def Mount_to_send_def
                 OnListReply_def DeferredMount_def mount_failed_def Let_def
           split: option.splits)

lemma Mount_bound_OnMountNotify:
  "Inv s \<Longrightarrow> mount_request s = Some OnMountNotify_cb \<Longrightarrow>
   Mount_bound s (OnMountNotify reply (s\<lparr>mount_request := None\<rparr>))"
  by (auto simp: Inv_def shape_def Mount_bound_def Mount_requests_def Mount_to_send_def
                 OnMountNotify_def mount_failed_def split: option.splits)

lemma Inv_pending_no_unmount:
  "Inv s \<Longrightarrow> want_mount s \<Longrightarrow>
   \<not> defer_unmount s \<and> mount_request s \<noteq> Some OnUnmountNotify_cb \<and> mounted_storage s = None"
  by (auto simp: Inv_def shape_def)

lemma Mount_step:
  assumes "Inv (storage c)" and "want_mount (storage c)" and "step e c = Some c'"
  shows "Mount_bound (storage c) (storage c')"
proof (cases e)
  case (Thread_MountWait en t)
  with assms show ?thesis
    using Mount_bound_MountWait [of "storage c" en t]
    by (cases en) (auto simp: in_MountWait_after_def split: if_splits)
next
  case (Thread_UnmountWait en t)
  with assms show ?thesis
    using Mount_bound_UnmountWait [of "storage c" en t]
    by (cases en) (auto simp: in_UnmountWait_after_def split: if_splits)
next
  case (Spurious_wakeup t)
  with assms show ?thesis
    by (auto simp: Mount_bound_cond split: if_splits)
next
  case (Loop_DeferredMount thrown)
  with assms show ?thesis
    by (auto simp: Mount_bound_DeferredMount split: if_splits)
next
  case (Loop_DeferredUnmount thrown)
  with assms show ?thesis
    using Inv_pending_no_unmount [of "storage c"] by (auto split: if_splits)
next
  case (Loop_list_reply objects parse_thrown thrown)
  with assms show ?thesis
    by (auto simp: Mount_bound_OnListReply split: if_splits)
next
  case (Loop_mount_reply reply)
  with assms show ?thesis
    using Inv_pending_no_unmount [of "storage c"]
    by (auto simp: Mount_bound_OnMountNotify split: option.splits callback.splits)
qed

lemma Mount_bound_refl: "Inv s \<Longrightarrow> want_mount s \<Longrightarrow> Mount_bound s s"
  by (auto simp: Inv_def shape_def Mount_bound_def)

lemma Mount_bound_trans:
  "Mount_bound s s1 \<Longrightarrow> want_mount s1 \<Longrightarrow> Mount_bound s1 s' \<Longrightarrow> Mount_bound s s'"
  by (simp add: Mount_bound_def)

lemma Mount_pending_run:
  "Inv (storage c) \<Longrightarrow> want_mount (storage c) \<Longrightarrow> pending_run es c = Some c' \<Longrightarrow>
   Mount_bound (storage c) (storage c')"
proof (induction es arbitrary: c)
  case Nil
  then show ?case by (simp add: Mount_bound_refl)
next
  case (Cons e es)
  from Cons.prems(3) obtain c1 where st: "step e c = Some c1"
    and rest: "pending_run es c1 = Some c'"
    by (auto split: if_splits option.splits)
  have inv1: "Inv (storage c1)" using Cons.prems(1) st by (rule Inv_step)
  have b1: "Mount_bound (storage c) (storage c1)" using Cons.prems(1,2) st by (rule Mount_step)
  show ?case
  proof (cases es)
    case Nil
    with rest have "c' = c1" by simp
    with b1 show ?thesis by simp
  next
    case (Cons e' es')
    with rest have wm1: "want_mount (storage c1)" by (auto split: if_splits)
    from b1 wm1 Cons.IH [OF inv1 wm1 rest] show ?thesis by (rule Mount_bound_trans)
  qed
qed

lemma Mount_pending_run_le:
  "Inv (storage c) \<Longrightarrow> pending_run es c = Some c' \<Longrightarrow>
   Mount_requests (storage c') \<le> Mount_requests (storage c) + 1"
proof (cases "want_mount (storage c)")
  case True
  assume "Inv (storage c)" and "pending_run es c = Some c'"
  from Mount_pending_run [OF this(1) True this(2)] show ?thesis
    by (simp add: Mount_bound_def Mount_to_send_def split: if_splits)
next
  case False
  assume "pending_run es c = Some c'"
  with False show ?thesis by (cases es) simp_all
qed

text \<open>
  The attempt that a call of \<open>MountWait\<close> starts: with no delegate and the flag
  clear, the call leaves the \<open>Mount\<close> request still to be sent.
\<close>

lemma Mount_attempt_start:
  assumes "Inv (storage c0)" and "mounted_storage (storage c0) = None"
    and "\<not> want_mount (storage c0)" and "step (Thread_MountWait Call t) c0 = Some c"
  shows "want_mount (storage c) \<and> Mount_requests (storage c) = Mount_requests (storage c0) \<and>
         Mount_to_send (storage c) = 1"
  using assms
  by (auto simp: Inv_def shape_def in_MountWait_after_def MountWait_loop_def
                 Mount_requests_def Mount_to_send_def split: if_splits)

text \<open>
  A settled step leaves the flag clear and the recorded error as it is, hence a settled
  run does.
\<close>

lemma settled_step:
  assumes "Inv (storage c)" and "\<not> want_mount (storage c)" and "\<not> unmount_or_reply e"
    and "step e c = Some c'"
  shows "mount_error (storage c') = mount_error (storage c)"
proof (cases e)
  case (Thread_MountWait en t)
  with assms show ?thesis
    by (cases en)
       (auto simp: in_MountWait_after_def MountWait_loop_def split: if_splits option.splits)
next
  case (Thread_UnmountWait en t)
  with assms show ?thesis
    by (cases en)
       (auto simp: in_UnmountWait_after_def UnmountWait_loop_def split: if_splits option.splits)
next
  case (Spurious_wakeup t)
  with assms show ?thesis by (auto split: if_splits)
next
  case (Loop_DeferredMount thrown)
  with assms show ?thesis by (auto simp: Inv_def shape_def split: if_splits)
next
  case (Loop_DeferredUnmount thrown)
  with assms show ?thesis by simp
next
  case (Loop_list_reply objects parse_thrown thrown)
  with assms show ?thesis by simp
next
  case (Loop_mount_reply reply)
  with assms show ?thesis by simp
qed

lemma settled_run_error:
  "Inv (storage c) \<Longrightarrow> \<not> want_mount (storage c) \<Longrightarrow> settled_run es c = Some c' \<Longrightarrow>
   mount_error (storage c') = mount_error (storage c) \<and> \<not> want_mount (storage c')"
proof (induction es arbitrary: c)
  case Nil
  then show ?case by simp
next
  case (Cons e es)
  from Cons.prems(3) obtain c1 where ne: "\<not> unmount_or_reply e" and st: "step e c = Some c1"
    and nw1: "\<not> want_mount (storage c1)" and rest: "settled_run es c1 = Some c'"
    by (auto split: if_splits option.splits)
  have inv1: "Inv (storage c1)" using Cons.prems(1) st by (rule Inv_step)
  from settled_step [OF Cons.prems(1,2) ne st] Cons.IH [OF inv1 nw1 rest]
  show ?case by simp
qed

text \<open>Every step moves the lifecycle state along a transition of the spec, or not at all.\<close>

lemmas life_defs = Inv_def shape_def lifecycle_state_def unmount_in_progress_def

lemma life_refl: "lifecycle_transition x x"
  by (cases x) simp_all

lemma life_MountWait:
  "Inv s \<Longrightarrow> lifecycle_transition (lifecycle_state s) (lifecycle_state (fst (MountWait en t s)))"
  by (cases en) (auto simp: life_defs MountWait_loop_def split: option.splits)

lemma life_UnmountWait:
  "Inv s \<Longrightarrow> lifecycle_transition (lifecycle_state s) (lifecycle_state (fst (UnmountWait en t s)))"
  by (cases en) (auto simp: life_defs UnmountWait_loop_def split: option.splits)

lemma life_cond: "lifecycle_state (s\<lparr>cond := X\<rparr>) = lifecycle_state s"
  by (simp add: lifecycle_state_def unmount_in_progress_def)

lemma life_DeferredMount:
  "Inv s \<Longrightarrow> defer_mount s \<Longrightarrow>
   lifecycle_transition (lifecycle_state s)
     (lifecycle_state (DeferredMount thrown (s\<lparr>defer_mount := False\<rparr>)))"
  by (auto simp: life_defs DeferredMount_def mount_failed_def split: option.splits)

lemma life_DeferredUnmount:
  "Inv s \<Longrightarrow> defer_unmount s \<Longrightarrow>
   lifecycle_transition (lifecycle_state s)
     (lifecycle_state (DeferredUnmount thrown (s\<lparr>defer_unmount := False\<rparr>)))"
  by (auto simp: life_defs DeferredUnmount_def unmount_failed_def split: option.splits)

lemma life_OnListReply:
  "Inv s \<Longrightarrow> list_request s = Some OnListReply_cb \<Longrightarrow>
   lifecycle_transition (lifecycle_state s)
     (lifecycle_state (OnListReply objects parse_thrown thrown (s\<lparr>list_request := None\<rparr>)))"
  by (auto simp: life_defs OnListReply_def DeferredMount_def mount_failed_def Let_def
           split: option.splits)

lemma life_OnMountNotify:
  "Inv s \<Longrightarrow> mount_request s = Some OnMountNotify_cb \<Longrightarrow>
   lifecycle_transition (lifecycle_state s)
     (lifecycle_state (OnMountNotify reply (s\<lparr>mount_request := None\<rparr>)))"
  by (auto simp: life_defs OnMountNotify_def mount_failed_def split: option.splits)

lemma life_OnUnmountNotify:
  "Inv s \<Longrightarrow> mount_request s = Some OnUnmountNotify_cb \<Longrightarrow>
   lifecycle_transition (lifecycle_state s)
     (lifecycle_state (OnUnmountNotify reply (s\<lparr>mount_request := None\<rparr>)))"
  by (auto simp: life_defs OnUnmountNotify_def unmount_failed_def split: option.splits)

lemma life_step:
  assumes "Inv (storage c)" and "step e c = Some c'"
  shows "lifecycle_transition (lifecycle_state (storage c)) (lifecycle_state (storage c'))"
proof (cases e)
  case (Thread_MountWait en t)
  with assms show ?thesis
    using life_MountWait [of "storage c" en t]
    by (cases en) (auto simp: in_MountWait_after_def split: if_splits)
next
  case (Thread_UnmountWait en t)
  with assms show ?thesis
    using life_UnmountWait [of "storage c" en t]
    by (cases en) (auto simp: in_UnmountWait_after_def split: if_splits)
next
  case (Spurious_wakeup t)
  with assms show ?thesis
    by (auto simp: life_cond life_refl split: if_splits)
next
  case (Loop_DeferredMount thrown)
  with assms show ?thesis
    by (auto simp: life_DeferredMount split: if_splits)
next
  case (Loop_DeferredUnmount thrown)
  with assms show ?thesis
    by (auto simp: life_DeferredUnmount split: if_splits)
next
  case (Loop_list_reply objects parse_thrown thrown)
  with assms show ?thesis
    by (auto simp: life_OnListReply split: if_splits)
next
  case (Loop_mount_reply reply)
  with assms show ?thesis
    by (auto simp: life_OnMountNotify life_OnUnmountNotify split: option.splits callback.splits)
qed

text \<open>Consequences of the invariant, and what a list without a match leaves.\<close>

lemma Inv_unmount_pending:
  "Inv s \<Longrightarrow> mount_request s = Some OnUnmountNotify_cb \<Longrightarrow>
   \<not> want_mount s \<and> \<not> defer_unmount s"
  by (auto simp: Inv_def shape_def)

lemma Inv_list_pending:
  "Inv s \<Longrightarrow> list_request s = Some OnListReply_cb \<Longrightarrow>
   dbus_path s = [] \<and> mounted_storage s = None \<and> \<not> defer_unmount s \<and> mount_request s = None"
  by (auto simp: Inv_def shape_def)

lemma fold_no_match:
  "\<forall>ob \<in> set objects. \<not> IsId ob i \<Longrightarrow>
   fold (\<lambda>ob p. if IsId ob i then path ob else p) objects p = p"
  by (induction objects arbitrary: p) auto

text \<open>
  Once the object path is known, no step changes it and no step sends an enumeration
  request.
\<close>

lemma cached_step:
  assumes "Inv (storage c)" and "dbus_path (storage c) \<noteq> []" and "step e c = Some c'"
  shows "dbus_path (storage c') = dbus_path (storage c) \<and>
         GetManagedObjects_requests (storage c') = GetManagedObjects_requests (storage c)"
proof (cases e)
  case (Thread_MountWait en t)
  with assms show ?thesis
    by (cases en)
       (auto simp: in_MountWait_after_def MountWait_loop_def GetManagedObjects_requests_def
             split: if_splits option.splits)
next
  case (Thread_UnmountWait en t)
  with assms show ?thesis
    by (cases en)
       (auto simp: in_UnmountWait_after_def UnmountWait_loop_def GetManagedObjects_requests_def
             split: if_splits option.splits)
next
  case (Spurious_wakeup t)
  with assms show ?thesis
    by (auto simp: GetManagedObjects_requests_def split: if_splits)
next
  case (Loop_DeferredMount thrown)
  with assms show ?thesis
    by (auto simp: DeferredMount_def mount_failed_def GetManagedObjects_requests_def
             split: if_splits option.splits)
next
  case (Loop_DeferredUnmount thrown)
  with assms show ?thesis
    by (auto simp: DeferredUnmount_def unmount_failed_def GetManagedObjects_requests_def
             split: if_splits option.splits)
next
  case (Loop_list_reply objects parse_thrown thrown)
  with assms show ?thesis
    by (auto simp: Inv_def split: if_splits)
next
  case (Loop_mount_reply reply)
  with assms show ?thesis
    by (auto simp: OnMountNotify_def OnUnmountNotify_def mount_failed_def unmount_failed_def
                   GetManagedObjects_requests_def
             split: if_splits option.splits callback.splits)
qed

lemma cached_run:
  "Inv (storage c) \<Longrightarrow> dbus_path (storage c) \<noteq> [] \<Longrightarrow> run es c = Some c' \<Longrightarrow>
   dbus_path (storage c') = dbus_path (storage c) \<and>
   GetManagedObjects_requests (storage c') = GetManagedObjects_requests (storage c)"
proof (induction es arbitrary: c)
  case Nil
  then show ?case by simp
next
  case (Cons e es)
  from Cons.prems(3) obtain c1 where st: "step e c = Some c1" and rest: "run es c1 = Some c'"
    by (auto split: option.splits)
  have inv1: "Inv (storage c1)" using Cons.prems(1) st by (rule Inv_step)
  have same: "dbus_path (storage c1) = dbus_path (storage c) \<and>
              GetManagedObjects_requests (storage c1) = GetManagedObjects_requests (storage c)"
    using Cons.prems(1,2) st by (rule cached_step)
  then have "dbus_path (storage c1) \<noteq> []" using Cons.prems(2) by simp
  from Cons.IH [OF inv1 this rest] same show ?case by simp
qed

lemma Inv_unmount_pending_path:
  "Inv s \<Longrightarrow> mount_request s = Some OnUnmountNotify_cb \<Longrightarrow>
   dbus_path s \<noteq> [] \<and> \<not> want_mount s \<and> \<not> defer_mount s"
  by (auto simp: Inv_def shape_def)

text \<open>With a delegate, \<open>MountWait\<close> returns at once; it never changes the base URI.\<close>

lemma Inv_mounted:
  "Inv s \<Longrightarrow> mounted_storage s = Some d \<Longrightarrow> MountWait en t s = (s, Returned ())"
  by (cases en) (auto simp: Inv_def shape_def MountWait_loop_def)

lemma MountWait_base_uri: "base_uri (fst (MountWait en t s)) = base_uri s"
  by (cases en) (auto simp: MountWait_loop_def split: option.splits)

text \<open>
  Waiters that continue one after the other with the flag cleared leave the object as
  it is and find the same outcome.
\<close>

lemma wake_step:
  "\<not> want_mount (storage c) \<Longrightarrow> step (Thread_MountWait Wake t) c = Some c' \<Longrightarrow>
   storage c' = storage c \<and> results c' = results c @ [(t, wake_outcome (storage c))]"
  by (auto simp: in_MountWait_after_def MountWait_loop_def wake_outcome_def
           split: if_splits option.splits)

lemma wake_all:
  "\<not> want_mount (storage c) \<Longrightarrow> run (map (Thread_MountWait Wake) ts) c = Some c' \<Longrightarrow>
   storage c' = storage c \<and>
   results c' = results c @ map (\<lambda>t. (t, wake_outcome (storage c))) ts"
proof (induction ts arbitrary: c)
  case Nil
  then show ?case by simp
next
  case (Cons t ts)
  from Cons.prems(2) obtain c1 where st: "step (Thread_MountWait Wake t) c = Some c1"
    and rest: "run (map (Thread_MountWait Wake) ts) c1 = Some c'"
    by (auto split: option.splits)
  from wake_step [OF Cons.prems(1) st]
  have s1: "storage c1 = storage c" and r1: "results c1 = results c @ [(t, wake_outcome (storage c))]"
    by simp_all
  from Cons.IH [of c1, OF _ rest] Cons.prems(1) s1 r1 show ?case by simp
qed

section \<open>Strings\<close>

lemma strchr_none: "ch \<notin> set v \<Longrightarrow> strchr v ch = None"
  by (induction v) (auto simp: strchr_def)

lemma strchr_some: "ch \<notin> set v \<Longrightarrow> strchr (v @ ch # r) ch = Some (ch # r)"
  by (simp add: strchr_def dropWhile_append)

lemma StringAfterPrefix_append: "StringAfterPrefix (p @ r) p = Some r"
  by (simp add: StringAfterPrefix_def)

section \<open>Evaluating runs\<close>

lemmas run_defs =
  abc_object_def abc_new_def mount_abc_def
  system_new_def UdisksStorage_new_def in_MountWait_after_def in_UnmountWait_after_def
  MountWait_loop_def UnmountWait_loop_def DeferredMount_def OnListReply_def OnMountNotify_def
  DeferredUnmount_def OnUnmountNotify_def mount_failed_def unmount_failed_def
  unmount_in_progress_def Let_def

lemmas run_defs2 = run_defs unmount_abc_def busy_def resolve_abc_def xyz_object_def
  service_unknown_def lifecycle_state_def No_such_object_def

lemmas run_defs3 = run_defs2 no_abc_def slash_Build_def mount_refused_def
  two_callers_no_object_def late_waiter_def two_callers_def two_callers_fail_def
  Mount_requests_def Mount_to_send_def wake_outcome_def

section \<open>GetInfo and OpenDirectory\<close>

text \<open>
  Claim C1. \<open>GetInfo\<close> and \<open>OpenDirectory\<close> begin with \<open>MountWait\<close>: what they
  do to the object is what \<open>MountWait\<close> does, and they block where it blocks. If
  \<open>MountWait\<close> raises, they raise the same error, whatever the delegate's methods
  are. In every reachable state with a delegate, they leave the object as it is and
  return what the delegate's method returns (or raises) for the same arguments.
\<close>

theorem GetInfo_OpenDirectory_forward:
  "fst (GetInfo g uri follow en t s) = fst (MountWait en t s) \<and>
   fst (OpenDirectory od uri en t s) = fst (MountWait en t s) \<and>
   (snd (MountWait en t s) = Blocked \<longrightarrow>
      snd (GetInfo g uri follow en t s) = Blocked \<and>
      snd (OpenDirectory od uri en t s) = Blocked) \<and>
   (snd (MountWait en t s) = Raised e \<longrightarrow>
      snd (GetInfo g uri follow en t s) = Raised e \<and>
      snd (OpenDirectory od uri en t s) = Raised e) \<and>
   (run es (system_new b i) = Some c \<and> mounted_storage (storage c) = Some d \<longrightarrow>
      GetInfo g uri follow en t (storage c)
        = (storage c, case g d uri follow of Inl x \<Rightarrow> Raised x | Inr r \<Rightarrow> Returned r) \<and>
      OpenDirectory od uri en t (storage c)
        = (storage c, case od d uri of Inl x \<Rightarrow> Raised x | Inr r \<Rightarrow> Returned r))"
proof -
  have A: "fst (GetInfo g uri follow en t s) = fst (MountWait en t s) \<and>
           fst (OpenDirectory od uri en t s) = fst (MountWait en t s)"
    by (simp add: GetInfo_def OpenDirectory_def split: prod.splits outcome.splits option.splits sum.splits)
  have B: "snd (MountWait en t s) = Blocked \<longrightarrow>
      snd (GetInfo g uri follow en t s) = Blocked \<and>
      snd (OpenDirectory od uri en t s) = Blocked"
    by (simp add: GetInfo_def OpenDirectory_def split: prod.splits)
  have C: "snd (MountWait en t s) = Raised e \<longrightarrow>
      snd (GetInfo g uri follow en t s) = Raised e \<and>
      snd (OpenDirectory od uri en t s) = Raised e"
    by (simp add: GetInfo_def OpenDirectory_def split: prod.splits)
  have D: "GetInfo g uri follow en t (storage c)
        = (storage c, case g d uri follow of Inl x \<Rightarrow> Raised x | Inr r \<Rightarrow> Returned r) \<and>
      OpenDirectory od uri en t (storage c)
        = (storage c, case od d uri of Inl x \<Rightarrow> Raised x | Inr r \<Rightarrow> Returned r)"
    if h: "run es (system_new b i) = Some c" "mounted_storage (storage c) = Some d"
    using Inv_mounted [OF Inv_reachable [OF h(1)] h(2), of en t] h(2)
    by (simp add: GetInfo_def OpenDirectory_def split: sum.splits)
  from A B C D show ?thesis by blast
qed

text \<open>
  The examples: thread 2 calls on the mounted volume; thread 1 continues after the
  enumeration did not find the volume; thread 1 calls on the new object and blocks.
\<close>

theorem GetInfo_OpenDirectory_forward_witness:
  "map_option (snd \<circ> GetInfo echo_GetInfo ''x'' True Call 2 \<circ> storage) (run mount_abc abc_new)
     = Some (Returned (CreateLocalStorage ''/media/abc'', ''x'', True)) \<and>
   map_option (snd \<circ> OpenDirectory echo_OpenDirectory ''x'' Call 2 \<circ> storage)
      (run mount_abc abc_new)
     = Some (Returned (CreateLocalStorage ''/media/abc'', ''x'')) \<and>
   map_option (snd \<circ> GetInfo echo_GetInfo ''x'' True Wake 1 \<circ> storage) (run no_abc abc_new)
     = Some (Raised (No_such_object ''abc'')) \<and>
   map_option (snd \<circ> OpenDirectory echo_OpenDirectory ''x'' Wake 1 \<circ> storage)
      (run no_abc abc_new)
     = Some (Raised (No_such_object ''abc'')) \<and>
   map_option (snd \<circ> GetInfo echo_GetInfo ''x'' True Call 1 \<circ> storage) (Some abc_new)
     = Some Blocked \<and>
   map_option (snd \<circ> OpenDirectory echo_OpenDirectory ''x'' Call 1 \<circ> storage) (Some abc_new)
     = Some Blocked"
  using GetInfo_OpenDirectory_forward
          [where g = echo_GetInfo and od = echo_OpenDirectory and uri = "''x''"
             and follow = True and en = Call and t = 2
             and s = "storage (the (run mount_abc abc_new))"
             and es = mount_abc and b = "''udisks://abc''" and i = "''abc''"
             and c = "the (run mount_abc abc_new)" and d = "CreateLocalStorage ''/media/abc''"
             and e = "No_such_object ''abc''"]
        GetInfo_OpenDirectory_forward
          [where g = echo_GetInfo and od = echo_OpenDirectory and uri = "''x''"
             and follow = True and en = Wake and t = 1
             and s = "storage (the (run no_abc abc_new))"
             and es = mount_abc and b = "''udisks://abc''" and i = "''abc''"
             and c = "the (run mount_abc abc_new)" and d = "CreateLocalStorage ''/media/abc''"
             and e = "No_such_object ''abc''"]
        GetInfo_OpenDirectory_forward
          [where g = echo_GetInfo and od = echo_OpenDirectory and uri = "''x''"
             and follow = True and en = Call and t = 1
             and s = "storage abc_new"
             and es = mount_abc and b = "''udisks://abc''" and i = "''abc''"
             and c = "the (run mount_abc abc_new)" and d = "CreateLocalStorage ''/media/abc''"
             and e = "No_such_object ''abc''"]
  by (simp add: run_defs3 GetInfo_def OpenDirectory_def)

section \<open>Concurrent callers of one mount attempt\<close>

text \<open>
  Claim C2, as stated: concurrent calls of \<open>MountWait\<close> made while the state is
  \<open>Idle\<close> cause exactly one mount request, and all callers see the same outcome.
  In the first run two callers wait, the enumeration does not find the volume, and the
  only message sent is the enumeration request: no \<open>Mount\<close> request at all. In the second run two callers wait for an
  attempt that the service refuses; the first wakes up and raises the error; a third
  caller finds the state \<open>Idle\<close> and starts another attempt, which succeeds, before
  the second caller runs again; the second caller then returns normally. Two
  \<open>Mount\<close> requests have been sent, and callers 1 and 2 of the same attempt differ.
\<close>

theorem attempt_without_Mount_and_callers_that_differ:
  "map_option (dbus_glue \<circ> storage) (run two_callers_no_object abc_new)
     = Some [NewMethodCall UDISKS2_INTERFACE UDISKS2_PATH DBUS_OM_INTERFACE
               ''GetManagedObjects'' []] \<and>
   map_option (Mount_requests \<circ> storage) (run two_callers_no_object abc_new) = Some 0 \<and>
   map_option results (run two_callers_no_object abc_new)
     = Some [(1, Raised (No_such_object ''abc'')), (2, Raised (No_such_object ''abc''))] \<and>
   map_option (Mount_requests \<circ> storage) (run late_waiter abc_new) = Some 2 \<and>
   map_option results (run late_waiter abc_new)
     = Some [(1, Raised (dbus_error ''org.freedesktop.UDisks2.Error.Failed'')),
             (2, Returned ()), (3, Returned ())]"
  by (simp add: run_defs3)

text \<open>
  Claim C2, amended. Of the callers of \<open>MountWait\<close> that find no delegate, the one
  that finds the mount-requested flag clear sets it and schedules the deferred mount,
  and every one that finds it set only joins the wait set. Over any stretch of a run
  in which the flag is set before every step, at most one \<open>Mount\<close> request is sent.
  In the attempt that such a first call starts, for as long as the flag is set before
  every step: exactly one \<open>Mount\<close> request has been sent if the attempt ends with a
  delegate, and while the flag is still set exactly one has been sent or is still to be
  sent. Once the flag is cleared, whatever steps follow that neither set the flag again
  nor run the deferred unmount nor deliver a reply, a waiter that continues after them
  finds the outcome that the clearing of the flag left: it returns if no error was
  recorded then and raises that error otherwise; so all such waiters find the same
  outcome.
\<close>

theorem MountWait_attempt:
  "(mounted_storage s = None \<and> \<not> want_mount s \<longrightarrow>
      MountWait Call t s
        = (s\<lparr>want_mount := True, defer_mount := True, cond := insert t (cond s)\<rparr>, Blocked)) \<and>
   (mounted_storage s = None \<and> want_mount s \<longrightarrow>
      MountWait Call t s = (s\<lparr>cond := insert t (cond s)\<rparr>, Blocked)) \<and>
   (run es (system_new b i) = Some c \<and> pending_run es' c = Some c' \<longrightarrow>
      Mount_requests (storage c') \<le> Mount_requests (storage c) + 1) \<and>
   (run es (system_new b i) = Some c \<and> mounted_storage (storage c) = None \<and>
    \<not> want_mount (storage c) \<and> step (Thread_MountWait Call t) c = Some ca \<and>
    pending_run es' ca = Some c' \<longrightarrow>
      (mounted_storage (storage c') \<noteq> None \<longrightarrow>
         Mount_requests (storage c') = Mount_requests (storage c) + 1) \<and>
      (want_mount (storage c') \<longrightarrow>
         Mount_requests (storage c') + Mount_to_send (storage c') = Mount_requests (storage c) + 1)) \<and>
   (\<not> want_mount (storage d) \<and> run (map (Thread_MountWait Wake) ts) d = Some d' \<longrightarrow>
      storage d' = storage d \<and>
      results d' = results d @ map (\<lambda>t. (t, wake_outcome (storage d))) ts) \<and>
   (run es (system_new b i) = Some c \<and> \<not> want_mount (storage c) \<and>
    settled_run es'' c = Some cb \<and> step (Thread_MountWait Wake t) cb = Some cc \<longrightarrow>
      storage cc = storage cb \<and>
      results cc = results cb @ [(t, wake_outcome (storage c))])"
proof -
  have A: "mounted_storage s = None \<and> \<not> want_mount s \<longrightarrow>
      MountWait Call t s
        = (s\<lparr>want_mount := True, defer_mount := True, cond := insert t (cond s)\<rparr>, Blocked)"
    by (simp add: MountWait_loop_def)
  have B: "mounted_storage s = None \<and> want_mount s \<longrightarrow>
      MountWait Call t s = (s\<lparr>cond := insert t (cond s)\<rparr>, Blocked)"
    by (simp add: MountWait_loop_def)
  have C: "Mount_requests (storage c') \<le> Mount_requests (storage c) + 1"
    if h: "run es (system_new b i) = Some c" "pending_run es' c = Some c'"
    using Inv_reachable [OF h(1)] h(2) by (rule Mount_pending_run_le)
  have D: "(mounted_storage (storage c') \<noteq> None \<longrightarrow>
         Mount_requests (storage c') = Mount_requests (storage c) + 1) \<and>
      (want_mount (storage c') \<longrightarrow>
         Mount_requests (storage c') + Mount_to_send (storage c') = Mount_requests (storage c) + 1)"
    if h: "run es (system_new b i) = Some c" "mounted_storage (storage c) = None"
          "\<not> want_mount (storage c)" "step (Thread_MountWait Call t) c = Some ca"
          "pending_run es' ca = Some c'"
  proof -
    have inv: "Inv (storage c)" using h(1) by (rule Inv_reachable)
    have inv1: "Inv (storage ca)" using inv h(4) by (rule Inv_step)
    from Mount_attempt_start [OF inv h(2,3,4)]
    have wm1: "want_mount (storage ca)"
      and n1: "Mount_requests (storage ca) = Mount_requests (storage c)"
      and t1: "Mount_to_send (storage ca) = 1"
      by simp_all
    from Mount_pending_run [OF inv1 wm1 h(5)] n1 t1 show ?thesis
      by (simp add: Mount_bound_def)
  qed
  have E: "storage cc = storage cb \<and> results cc = results cb @ [(t, wake_outcome (storage c))]"
    if h: "run es (system_new b i) = Some c" "\<not> want_mount (storage c)"
          "settled_run es'' c = Some cb" "step (Thread_MountWait Wake t) cb = Some cc"
  proof -
    have inv: "Inv (storage c)" using h(1) by (rule Inv_reachable)
    from settled_run_error [OF inv h(2,3)]
    have e2: "mount_error (storage cb) = mount_error (storage c)"
      and nw2: "\<not> want_mount (storage cb)"
      by simp_all
    from wake_step [OF nw2 h(4)] e2 show ?thesis by (simp add: wake_outcome_def)
  qed
  from A B C D E wake_all [of d ts d'] show ?thesis by blast
qed

text \<open>
  The examples: the two calls on the new object; the successful attempt of two callers,
  which sends one \<open>Mount\<close> request and after which both return; the failed
  enumeration of two callers, after which thread 1 continues, thread 3 calls
  \<open>UnmountWait\<close>, and thread 2 still raises the error of the enumeration.
\<close>

theorem MountWait_attempt_witness:
  "MountWait Call 1 (storage abc_new)
     = ((storage abc_new)\<lparr>want_mount := True, defer_mount := True, cond := {1}\<rparr>, Blocked) \<and>
   MountWait Call 2 ((storage abc_new)\<lparr>want_mount := True, defer_mount := True, cond := {1}\<rparr>)
     = ((storage abc_new)\<lparr>want_mount := True, defer_mount := True, cond := {2, 1}\<rparr>, Blocked) \<and>
   map_option (Mount_requests \<circ> storage) (run [Thread_MountWait Call 1] abc_new) = Some 0 \<and>
   map_option (Mount_requests \<circ> storage)
      (pending_run two_callers (the (step (Thread_MountWait Call 1) abc_new))) = Some 1 \<and>
   map_option (mounted_storage \<circ> storage)
      (pending_run two_callers (the (step (Thread_MountWait Call 1) abc_new)))
     = Some (Some (CreateLocalStorage ''/media/abc'')) \<and>
   map_option (Mount_requests \<circ> storage)
      (pending_run (butlast two_callers) (the (step (Thread_MountWait Call 1) abc_new))) = Some 1 \<and>
   map_option (want_mount \<circ> storage)
      (pending_run (butlast two_callers) (the (step (Thread_MountWait Call 1) abc_new)))
     = Some True \<and>
   map_option results
      (run ([Thread_MountWait Call 1] @ two_callers @ map (Thread_MountWait Wake) [1, 2]) abc_new)
     = Some [(1, Returned ()), (2, Returned ())] \<and>
   map_option results
      (run (two_callers_fail @ [Thread_MountWait Wake 1, Thread_UnmountWait Call 3,
                                Thread_MountWait Wake 2]) abc_new)
     = Some [(1, Raised (No_such_object ''abc'')), (3, Returned ()),
             (2, Raised (No_such_object ''abc''))]"
  using MountWait_attempt
          [where s = "storage abc_new" and t = 1
             and es = "[]" and b = "''udisks://abc''" and i = "''abc''"
             and c = abc_new and ca = "the (step (Thread_MountWait Call 1) abc_new)"
             and es' = two_callers
             and c' = "the (pending_run two_callers (the (step (Thread_MountWait Call 1) abc_new)))"
             and d = "the (run ([Thread_MountWait Call 1] @ two_callers) abc_new)"
             and ts = "[1, 2]"
             and d' = "the (run ([Thread_MountWait Call 1] @ two_callers
                                   @ map (Thread_MountWait Wake) [1, 2]) abc_new)"
             and es'' = "[]" and cb = abc_new and cc = abc_new]
        MountWait_attempt
          [where s = "(storage abc_new)\<lparr>want_mount := True, defer_mount := True, cond := {1}\<rparr>"
             and t = 1
             and es = "[]" and b = "''udisks://abc''" and i = "''abc''"
             and c = abc_new and ca = "the (step (Thread_MountWait Call 1) abc_new)"
             and es' = "butlast two_callers"
             and c' = "the (pending_run (butlast two_callers)
                              (the (step (Thread_MountWait Call 1) abc_new)))"
             and d = "the (run ([Thread_MountWait Call 1] @ two_callers) abc_new)"
             and ts = "[1, 2]"
             and d' = "the (run ([Thread_MountWait Call 1] @ two_callers
                                   @ map (Thread_MountWait Wake) [1, 2]) abc_new)"
             and es'' = "[]" and cb = abc_new and cc = abc_new]
        MountWait_attempt
          [where s = "(storage abc_new)\<lparr>want_mount := True, defer_mount := True, cond := {1}\<rparr>"
             and t = 2
             and es = two_callers_fail and b = "''udisks://abc''" and i = "''abc''"
             and c = "the (run two_callers_fail abc_new)"
             and ca = "the (step (Thread_MountWait Call 1) abc_new)"
             and es' = two_callers
             and c' = "the (pending_run two_callers (the (step (Thread_MountWait Call 1) abc_new)))"
             and d = "the (run ([Thread_MountWait Call 1] @ two_callers) abc_new)"
             and ts = "[1, 2]"
             and d' = "the (run ([Thread_MountWait Call 1] @ two_callers
                                   @ map (Thread_MountWait Wake) [1, 2]) abc_new)"
             and es'' = "[Thread_MountWait Wake 1, Thread_UnmountWait Call 3]"
             and cb = "the (run (two_callers_fail @ [Thread_MountWait Wake 1,
                                   Thread_UnmountWait Call 3]) abc_new)"
             and cc = "the (run (two_callers_fail @ [Thread_MountWait Wake 1,
                                   Thread_UnmountWait Call 3, Thread_MountWait Wake 2]) abc_new)"]
  by (simp add: run_defs3 insert_commute)

section \<open>The delegate and the lifecycle state\<close>

text \<open>
  Claim C3, as stated: the delegate exists if and only if the lifecycle state is
  \<open>Mounted\<close>. It fails while an unmount is pending: after the example run, once
  thread 2 has called \<open>UnmountWait\<close>, the state is \<open>UnmountPending\<close> and the
  delegate is still there (\<open>UnmountWait\<close> waits for it to go).
\<close>

theorem delegate_while_UnmountPending:
  "map_option (mounted_storage \<circ> storage) (run (mount_abc @ [Thread_UnmountWait Call 2]) abc_new)
     = Some (Some (CreateLocalStorage ''/media/abc'')) \<and>
   map_option (lifecycle_state \<circ> storage) (run (mount_abc @ [Thread_UnmountWait Call 2]) abc_new)
     = Some UnmountPending \<and>
   UnmountPending \<noteq> Mounted"
  by (simp add: run_defs lifecycle_state_def)

text \<open>
  Claim C3, amended. In every state the object can reach, the delegate exists if and
  only if the lifecycle state is \<open>Mounted\<close> or \<open>UnmountPending\<close>: a scheduled or
  pending unmount has a delegate, a set mount-requested flag has none, and the two never
  hold together. No reachable \<open>Idle\<close> or \<open>MountPending\<close> state holds a delegate.
  And every step from a reachable state moves the lifecycle state along a transition of
  the spec or leaves it: the delegate appears only from \<open>MountPending\<close> to
  \<open>Mounted\<close> and goes only from \<open>UnmountPending\<close> to \<open>Idle\<close>.
\<close>

theorem delegate_iff_Mounted_or_UnmountPending:
  "run es (system_new b i) = Some c \<Longrightarrow>
   (mounted_storage (storage c) \<noteq> None \<longleftrightarrow>
      lifecycle_state (storage c) = Mounted \<or> lifecycle_state (storage c) = UnmountPending) \<and>
   (unmount_in_progress (storage c) \<longrightarrow> mounted_storage (storage c) \<noteq> None) \<and>
   (want_mount (storage c) \<longrightarrow> mounted_storage (storage c) = None) \<and>
   \<not> (want_mount (storage c) \<and> unmount_in_progress (storage c)) \<and>
   (lifecycle_state (storage c) = Idle \<or> lifecycle_state (storage c) = MountPending \<longrightarrow>
      mounted_storage (storage c) = None) \<and>
   (step e c = Some c' \<longrightarrow>
      lifecycle_transition (lifecycle_state (storage c)) (lifecycle_state (storage c')))"
proof -
  assume r: "run es (system_new b i) = Some c"
  have inv: "Inv (storage c)" using r by (rule Inv_reachable)
  have A: "(mounted_storage (storage c) \<noteq> None \<longleftrightarrow>
      lifecycle_state (storage c) = Mounted \<or> lifecycle_state (storage c) = UnmountPending) \<and>
   (unmount_in_progress (storage c) \<longrightarrow> mounted_storage (storage c) \<noteq> None) \<and>
   (want_mount (storage c) \<longrightarrow> mounted_storage (storage c) = None) \<and>
   \<not> (want_mount (storage c) \<and> unmount_in_progress (storage c)) \<and>
   (lifecycle_state (storage c) = Idle \<or> lifecycle_state (storage c) = MountPending \<longrightarrow>
      mounted_storage (storage c) = None)"
    using inv by (auto simp: life_defs split: if_splits)
  from A life_step [OF inv] show ?thesis by blast
qed

text \<open>
  The examples: the mounted volume; the volume while thread 2 waits for the unmount
  request to be sent; the new object while thread 1 waits for the mount; the successful
  reply to the unmount request, which takes \<open>UnmountPending\<close> to \<open>Idle\<close>.
\<close>

theorem delegate_iff_Mounted_or_UnmountPending_witness:
  "map_option (mounted_storage \<circ> storage) (run mount_abc abc_new)
     = Some (Some (CreateLocalStorage ''/media/abc'')) \<and>
   map_option (lifecycle_state \<circ> storage) (run mount_abc abc_new) = Some Mounted \<and>
   map_option (unmount_in_progress \<circ> storage)
      (run (mount_abc @ [Thread_UnmountWait Call 2]) abc_new) = Some True \<and>
   map_option (mounted_storage \<circ> storage)
      (run (mount_abc @ [Thread_UnmountWait Call 2]) abc_new)
     = Some (Some (CreateLocalStorage ''/media/abc'')) \<and>
   map_option (lifecycle_state \<circ> storage) (run [Thread_MountWait Call 1] abc_new)
     = Some MountPending \<and>
   map_option (mounted_storage \<circ> storage) (run [Thread_MountWait Call 1] abc_new) = Some None \<and>
   map_option (lifecycle_state \<circ> storage) (run unmount_abc abc_new) = Some UnmountPending \<and>
   map_option (lifecycle_state \<circ> storage)
      (run (unmount_abc @ [Loop_mount_reply (MethodReturn [])]) abc_new) = Some Idle \<and>
   lifecycle_transition UnmountPending Idle"
  using delegate_iff_Mounted_or_UnmountPending
          [where es = mount_abc and b = "''udisks://abc''" and i = "''abc''"
             and c = "the (run mount_abc abc_new)" and e = "Thread_UnmountWait Call 2"
             and c' = "the (run (mount_abc @ [Thread_UnmountWait Call 2]) abc_new)"]
        delegate_iff_Mounted_or_UnmountPending
          [where es = "mount_abc @ [Thread_UnmountWait Call 2]"
             and b = "''udisks://abc''" and i = "''abc''"
             and c = "the (run (mount_abc @ [Thread_UnmountWait Call 2]) abc_new)"
             and e = "Loop_DeferredUnmount None" and c' = "the (run unmount_abc abc_new)"]
        delegate_iff_Mounted_or_UnmountPending
          [where es = "[Thread_MountWait Call 1]" and b = "''udisks://abc''" and i = "''abc''"
             and c = "the (run [Thread_MountWait Call 1] abc_new)"
             and e = "Loop_DeferredMount None"
             and c' = "the (run [Thread_MountWait Call 1, Loop_DeferredMount None] abc_new)"]
        delegate_iff_Mounted_or_UnmountPending
          [where es = unmount_abc and b = "''udisks://abc''" and i = "''abc''"
             and c = "the (run unmount_abc abc_new)" and e = "Loop_mount_reply (MethodReturn [])"
             and c' = "the (run (unmount_abc @ [Loop_mount_reply (MethodReturn [])]) abc_new)"]
  by (simp add: run_defs2)

section \<open>The reply to the unmount request\<close>

text \<open>
  Claim C4. When the reply to the unmount request arrives, the delegate is destroyed
  whether the reply is a success or an error, and the lifecycle state is \<open>Idle\<close>
  again; an error is recorded if and only if the reply is an error (a success clears
  it); the wait set of \<open>cond\<close> is emptied, so every waiting thread is woken; and on
  an error \<open>e\<close> the thread that waits in \<open>UnmountWait\<close> continues by raising
  \<open>e\<close>.
\<close>

theorem unmount_reply:
  assumes "run es (system_new b i) = Some c"
    and "mount_request (storage c) = Some OnUnmountNotify_cb"
    and "s' = OnUnmountNotify reply ((storage c)\<lparr>mount_request := None\<rparr>)"
  shows "step (Loop_mount_reply reply) c = Some (c\<lparr>storage := s'\<rparr>) \<and>
         mounted_storage s' = None \<and> lifecycle_state s' = Idle \<and>
         (mount_error s' \<noteq> None \<longleftrightarrow> (\<exists>e. reply = ErrorMessage e)) \<and>
         cond s' = {} \<and>
         (reply = ErrorMessage e \<longrightarrow>
            mount_error s' = Some e \<and>
            UnmountWait Wake t s' = (s', Raised e) \<and>
            (t \<in> in_UnmountWait c \<longrightarrow>
               map_option results (step (Thread_UnmountWait Wake t) (c\<lparr>storage := s'\<rparr>))
                 = Some (results c @ [(t, Raised e)])))"
proof -
  have inv: "Inv (storage c)" using assms(1) by (rule Inv_reachable)
  from Inv_unmount_pending [OF inv assms(2)]
  have nw: "\<not> want_mount (storage c)" and nd: "\<not> defer_unmount (storage c)" by simp_all
  show ?thesis
    using assms(2,3) nw nd
    by (cases reply)
       (simp_all add: OnUnmountNotify_def unmount_failed_def lifecycle_state_def
                      unmount_in_progress_def UnmountWait_loop_def in_UnmountWait_after_def)
qed

text \<open>
  The example: the volume is mounted, thread 2 waits for the unmount, the service
  replies that the device is busy.
\<close>

theorem unmount_reply_witness:
  "map_option (mounted_storage \<circ> storage) (run (unmount_abc @ [Loop_mount_reply busy]) abc_new)
     = Some None \<and>
   map_option (lifecycle_state \<circ> storage) (run (unmount_abc @ [Loop_mount_reply busy]) abc_new)
     = Some Idle \<and>
   map_option (mount_error \<circ> storage) (run (unmount_abc @ [Loop_mount_reply busy]) abc_new)
     = Some (Some (dbus_error ''org.freedesktop.UDisks2.Error.DeviceBusy'')) \<and>
   map_option (cond \<circ> storage) (run (unmount_abc @ [Loop_mount_reply busy]) abc_new)
     = Some {} \<and>
   map_option results
      (run (unmount_abc @ [Loop_mount_reply busy, Thread_UnmountWait Wake 2]) abc_new)
     = Some [(1, Returned ()),
             (2, Raised (dbus_error ''org.freedesktop.UDisks2.Error.DeviceBusy''))]"
  using unmount_reply
          [where es = unmount_abc and b = "''udisks://abc''" and i = "''abc''"
             and c = "the (run unmount_abc abc_new)" and reply = busy
             and s' = "OnUnmountNotify busy
                         ((storage (the (run unmount_abc abc_new)))\<lparr>mount_request := None\<rparr>)"
             and e = "dbus_error ''org.freedesktop.UDisks2.Error.DeviceBusy''" and t = 2]
  by (simp add: run_defs2)

section \<open>The reply to the enumeration request\<close>

text \<open>
  Claim C5, as stated: if the enumeration itself fails, the recorded error is a "no such
  object" error. It is not: the handler records the exception it caught, which is the
  one the enumeration threw.
\<close>

theorem enumeration_error_is_recorded:
  "map_option (mount_error \<circ> storage)
      (run (resolve_abc @ [Loop_list_reply [] (Some service_unknown) None]) abc_new)
     = Some (Some service_unknown) \<and>
   service_unknown \<noteq> No_such_object ''abc''"
  by (simp add: run_defs2)

text \<open>
  Claim C5, amended. When the reply to the enumeration request arrives and either the
  enumeration throws or no enumerated object matches the volume reference, the recorded
  error is the exception of the enumeration in the first case and "No such UDisks2
  object" for the volume reference in the second; the mount-requested flag is cleared,
  the lifecycle state is \<open>Idle\<close>, the wait set of \<open>cond\<close> is emptied, and a
  thread that waits in \<open>MountWait\<close> continues by raising the recorded error.
\<close>

theorem list_reply_without_match:
  assumes "run es (system_new b i) = Some c"
    and "list_request (storage c) = Some OnListReply_cb"
    and "parse_thrown \<noteq> None \<or> (\<forall>ob \<in> set objects. \<not> IsId ob (id_s (storage c)))"
    and "s' = OnListReply objects parse_thrown thrown ((storage c)\<lparr>list_request := None\<rparr>)"
    and "e = (case parse_thrown of Some x \<Rightarrow> x | None \<Rightarrow> No_such_object (id_s (storage c)))"
  shows "step (Loop_list_reply objects parse_thrown thrown) c = Some (c\<lparr>storage := s'\<rparr>) \<and>
         mount_error s' = Some e \<and> \<not> want_mount s' \<and> lifecycle_state s' = Idle \<and>
         cond s' = {} \<and>
         MountWait Wake t s' = (s', Raised e) \<and>
         (t \<in> in_MountWait c \<longrightarrow>
            map_option results (step (Thread_MountWait Wake t) (c\<lparr>storage := s'\<rparr>))
              = Some (results c @ [(t, Raised e)]))"
proof -
  have inv: "Inv (storage c)" using assms(1) by (rule Inv_reachable)
  from Inv_list_pending [OF inv assms(2)]
  have p: "dbus_path (storage c) = []" and m: "mounted_storage (storage c) = None"
    and u: "\<not> defer_unmount (storage c)" "mount_request (storage c) = None"
    by simp_all
  show ?thesis
  proof (cases parse_thrown)
    case (Some x)
    then show ?thesis
      using assms(2,4,5) m u
      by (simp add: OnListReply_def mount_failed_def lifecycle_state_def unmount_in_progress_def
                    MountWait_loop_def in_MountWait_after_def Let_def)
  next
    case None
    with assms(3) have "\<forall>ob \<in> set objects. \<not> IsId ob (id_s (storage c))" by simp
    then have "fold (\<lambda>ob p. if IsId ob (id_s (storage c)) then path ob else p) objects [] = []"
      by (rule fold_no_match)
    then show ?thesis
      using assms(2,4,5) m p u None
      by (simp add: OnListReply_def mount_failed_def lifecycle_state_def unmount_in_progress_def
                    MountWait_loop_def in_MountWait_after_def Let_def)
  qed
qed

text \<open>
  The example: thread 1 waits for the mount of \<open>abc\<close>, the enumeration returns
  only the object \<open>xyz\<close>.
\<close>

theorem list_reply_without_match_witness:
  "map_option (mount_error \<circ> storage)
      (run (resolve_abc @ [Loop_list_reply [xyz_object] None None]) abc_new)
     = Some (Some (No_such_object ''abc'')) \<and>
   map_option (lifecycle_state \<circ> storage)
      (run (resolve_abc @ [Loop_list_reply [xyz_object] None None]) abc_new)
     = Some Idle \<and>
   map_option (cond \<circ> storage)
      (run (resolve_abc @ [Loop_list_reply [xyz_object] None None]) abc_new)
     = Some {} \<and>
   map_option results
      (run (resolve_abc @ [Loop_list_reply [xyz_object] None None, Thread_MountWait Wake 1])
         abc_new)
     = Some [(1, Raised (No_such_object ''abc''))]"
  using list_reply_without_match
          [where es = resolve_abc and b = "''udisks://abc''" and i = "''abc''"
             and c = "the (run resolve_abc abc_new)" and objects = "[xyz_object]"
             and parse_thrown = None and thrown = None
             and s' = "OnListReply [xyz_object] None None
                         ((storage (the (run resolve_abc abc_new)))\<lparr>list_request := None\<rparr>)"
             and e = "No_such_object ''abc''" and t = 1]
  by (simp add: run_defs2)

section \<open>The cached object path\<close>

text \<open>
  Claim C6. Once the object path is known, no later step changes it or sends another
  enumeration request. In particular, when the reply to a pending unmount request is a
  success, the delegate is gone, the object path is still known, and the next call of
  \<open>MountWait\<close> followed by the deferred mount sends exactly one message: a
  \<open>Mount\<close> call on the cached object path whose only argument is an empty array.
\<close>

theorem object_path_cached:
  assumes "run es (system_new b i) = Some c"
  shows "(dbus_path (storage c) \<noteq> [] \<and> run es' c = Some c' \<longrightarrow>
            dbus_path (storage c') = dbus_path (storage c) \<and>
            GetManagedObjects_requests (storage c') = GetManagedObjects_requests (storage c)) \<and>
         (mount_request (storage c) = Some OnUnmountNotify_cb \<and> CheckThrowError reply = None \<and>
          t \<notin> in_MountWait c \<union> in_UnmountWait c \<longrightarrow>
            dbus_path (storage c) \<noteq> [] \<and>
            map_option (mounted_storage \<circ> storage) (run [Loop_mount_reply reply] c) = Some None \<and>
            map_option (dbus_glue \<circ> storage)
               (run [Loop_mount_reply reply, Thread_MountWait Call t, Loop_DeferredMount None] c)
              = Some (dbus_glue (storage c) @
                      [NewMethodCall UDISKS2_INTERFACE (Object_path (dbus_path (storage c)))
                         UDISKS2_FILESYSTEM_INTERFACE ''Mount'' [Empty_array]]) \<and>
            map_option (mount_request \<circ> storage)
               (run [Loop_mount_reply reply, Thread_MountWait Call t, Loop_DeferredMount None] c)
              = Some (Some OnMountNotify_cb))"
proof -
  have inv: "Inv (storage c)" using assms by (rule Inv_reachable)
  have A: "dbus_path (storage c) \<noteq> [] \<and> run es' c = Some c' \<longrightarrow>
            dbus_path (storage c') = dbus_path (storage c) \<and>
            GetManagedObjects_requests (storage c') = GetManagedObjects_requests (storage c)"
    using cached_run [OF inv] by blast
  have B: "dbus_path (storage c) \<noteq> [] \<and>
            map_option (mounted_storage \<circ> storage) (run [Loop_mount_reply reply] c) = Some None \<and>
            map_option (dbus_glue \<circ> storage)
               (run [Loop_mount_reply reply, Thread_MountWait Call t, Loop_DeferredMount None] c)
              = Some (dbus_glue (storage c) @
                      [NewMethodCall UDISKS2_INTERFACE (Object_path (dbus_path (storage c)))
                         UDISKS2_FILESYSTEM_INTERFACE ''Mount'' [Empty_array]]) \<and>
            map_option (mount_request \<circ> storage)
               (run [Loop_mount_reply reply, Thread_MountWait Call t, Loop_DeferredMount None] c)
              = Some (Some OnMountNotify_cb)"
    if h: "mount_request (storage c) = Some OnUnmountNotify_cb" "CheckThrowError reply = None"
          "t \<notin> in_MountWait c \<union> in_UnmountWait c"
    using Inv_unmount_pending_path [OF inv h(1)] h
    by (simp add: OnUnmountNotify_def in_MountWait_after_def MountWait_loop_def
                  DeferredMount_def)
  from A B show ?thesis by blast
qed

text \<open>
  The example: \<open>abc\<close> is mounted and unmounted, then thread 3 asks for it again.
  One enumeration request has been sent in all, and the last message is the second
  \<open>Mount\<close> call on the same object path.
\<close>

theorem object_path_cached_witness:
  "map_option (dbus_path \<circ> storage) (run unmount_abc abc_new)
     = Some ''/org/freedesktop/UDisks2/block_devices/sdb1'' \<and>
   map_option (dbus_path \<circ> storage)
      (run (unmount_abc @ [Loop_mount_reply (MethodReturn []), Thread_MountWait Call 3,
                           Loop_DeferredMount None]) abc_new)
     = Some ''/org/freedesktop/UDisks2/block_devices/sdb1'' \<and>
   map_option (GetManagedObjects_requests \<circ> storage)
      (run (unmount_abc @ [Loop_mount_reply (MethodReturn []), Thread_MountWait Call 3,
                           Loop_DeferredMount None]) abc_new)
     = Some 1 \<and>
   map_option (mounted_storage \<circ> storage)
      (run (unmount_abc @ [Loop_mount_reply (MethodReturn [])]) abc_new) = Some None \<and>
   map_option (last \<circ> dbus_glue \<circ> storage)
      (run (unmount_abc @ [Loop_mount_reply (MethodReturn []), Thread_MountWait Call 3,
                           Loop_DeferredMount None]) abc_new)
     = Some (NewMethodCall UDISKS2_INTERFACE
               (Object_path ''/org/freedesktop/UDisks2/block_devices/sdb1'')
               UDISKS2_FILESYSTEM_INTERFACE ''Mount'' [Empty_array])"
  using object_path_cached
          [where es = unmount_abc and b = "''udisks://abc''" and i = "''abc''"
             and c = "the (run unmount_abc abc_new)"
             and es' = "[Loop_mount_reply (MethodReturn []), Thread_MountWait Call 3,
                         Loop_DeferredMount None]"
             and c' = "the (run (unmount_abc @ [Loop_mount_reply (MethodReturn []),
                          Thread_MountWait Call 3, Loop_DeferredMount None]) abc_new)"
             and reply = "MethodReturn []" and t = 3]
  by (simp add: run_defs2 GetManagedObjects_requests_def)

section \<open>MapFS\<close>

text \<open>
  Claim C7. \<open>MapFS\<close> never raises: where \<open>MountWait\<close> raises it returns
  \<open>nullptr\<close>, and in every reachable state with a delegate it returns what the
  delegate's \<open>MapFS\<close> returns for the same argument.
\<close>

theorem MapFS_never_raises:
  "snd (MapFS m uri en t s) \<noteq> Raised e \<and>
   fst (MapFS m uri en t s) = fst (MountWait en t s) \<and>
   (snd (MountWait en t s) = Raised e \<longrightarrow> snd (MapFS m uri en t s) = Returned None) \<and>
   (run es (system_new b i) = Some c \<and> mounted_storage (storage c) = Some d \<longrightarrow>
      MapFS m uri en t (storage c) = (storage c, Returned (m d uri)))"
proof -
  have A: "snd (MapFS m uri en t s) \<noteq> Raised e \<and>
           fst (MapFS m uri en t s) = fst (MountWait en t s)"
    by (simp add: MapFS_def split: prod.splits outcome.splits option.splits)
  have C: "snd (MountWait en t s) = Raised e \<longrightarrow> snd (MapFS m uri en t s) = Returned None"
    by (simp add: MapFS_def split: prod.splits)
  have D: "MapFS m uri en t (storage c) = (storage c, Returned (m d uri))"
    if h: "run es (system_new b i) = Some c" "mounted_storage (storage c) = Some d"
    using Inv_mounted [OF Inv_reachable [OF h(1)] h(2), of en t] h(2)
    by (simp add: MapFS_def)
  from A C D show ?thesis by blast
qed

theorem MapFS_never_raises_witness:
  "map_option (snd \<circ> MapFS echo_MapFS ''x'' Call 2 \<circ> storage) (run mount_abc abc_new)
     = Some (Returned (Some ''/media/abc/x'')) \<and>
   map_option (snd \<circ> MapFS echo_MapFS ''x'' Wake 1 \<circ> storage) (run no_abc abc_new)
     = Some (Returned None)"
  using MapFS_never_raises
          [where m = echo_MapFS and uri = "''x''" and en = Call and t = 2
             and s = "storage (the (run mount_abc abc_new))"
             and es = mount_abc and b = "''udisks://abc''" and i = "''abc''"
             and c = "the (run mount_abc abc_new)" and d = "CreateLocalStorage ''/media/abc''"
             and e = "No_such_object ''abc''"]
        MapFS_never_raises
          [where m = echo_MapFS and uri = "''x''" and en = Wake and t = 1
             and s = "storage (the (run no_abc abc_new))"
             and es = mount_abc and b = "''udisks://abc''" and i = "''abc''"
             and c = "the (run mount_abc abc_new)" and d = "CreateLocalStorage ''/media/abc''"
             and e = "No_such_object ''abc''"]
  by (simp add: run_defs3 MapFS_def)

section \<open>MapUTF8\<close>

text \<open>
  Claim C8. Where \<open>MountWait\<close> raises, \<open>MapUTF8\<close> returns: the base URI for the
  empty path, and otherwise \<open>Build\<close> of the base URI and the path. The result is
  the same whatever the delegate's \<open>MapUTF8\<close> is.
\<close>

theorem MapUTF8_fallback:
  "snd (MountWait en t s) = Raised e \<Longrightarrow>
   MapUTF8 Build m uri en t s
     = (fst (MountWait en t s),
        Returned (if uri = [] then base_uri s else Build (base_uri s) uri)) \<and>
   MapUTF8 Build m uri en t s = MapUTF8 Build m' uri en t s"
  using MountWait_base_uri [of en t s]
  by (cases "MountWait en t s") (simp add: MapUTF8_def)

theorem MapUTF8_fallback_witness:
  "map_option (snd \<circ> MapUTF8 slash_Build echo_MapUTF8 ''x'' Wake 1 \<circ> storage) (run no_abc abc_new)
     = Some (Returned ''udisks://abc/x'') \<and>
   map_option (snd \<circ> MapUTF8 slash_Build echo_MapUTF8 [] Wake 1 \<circ> storage) (run no_abc abc_new)
     = Some (Returned ''udisks://abc'')"
  using MapUTF8_fallback
          [where Build = slash_Build and m = echo_MapUTF8 and m' = echo_MapUTF8
             and uri = "''x''" and en = Wake and t = 1
             and s = "storage (the (run no_abc abc_new))" and e = "No_such_object ''abc''"]
        MapUTF8_fallback
          [where Build = slash_Build and m = echo_MapUTF8 and m' = echo_MapUTF8
             and uri = "[]" and en = Wake and t = 1
             and s = "storage (the (run no_abc abc_new))" and e = "No_such_object ''abc''"]
  by (simp add: run_defs3 MapUTF8_def)

section \<open>The factory\<close>

text \<open>
  Claim C9, as stated: the trailing relative path does not affect the constructed
  object. It does: the object keeps the whole identifier as its base URI, so two
  identifiers of one volume give two different objects.
\<close>

theorem relative_path_is_kept_in_base_uri:
  "CreateUdisksStorageURI ''udisks://abc/music'' \<noteq> CreateUdisksStorageURI ''udisks://abc'' \<and>
   map_option base_uri (CreateUdisksStorageURI ''udisks://abc/music'') = Some ''udisks://abc/music'' \<and>
   map_option base_uri (CreateUdisksStorageURI ''udisks://abc'') = Some ''udisks://abc''"
  by (simp add: CreateUdisksStorageURI_def StringAfterPrefix_def strchr_def UdisksStorage_new_def)

text \<open>
  Claim C9, amended. For a string that does not begin with \<open>udisks://\<close> the factory
  returns nothing. For \<open>udisks://\<close> followed by a volume reference without a slash,
  and optionally by a slash and a relative path, it returns a new object whose volume
  reference is that segment and whose base URI is the whole string; the relative path
  affects the base URI and nothing else.
\<close>

theorem CreateUdisksStorageURI_volume_reference:
  "(\<not> prefix ''udisks://'' uri \<longrightarrow> CreateUdisksStorageURI uri = None) \<and>
   (CHR ''/'' \<notin> set v \<longrightarrow>
      CreateUdisksStorageURI (''udisks://'' @ v) = Some (UdisksStorage_new (''udisks://'' @ v) v) \<and>
      CreateUdisksStorageURI (''udisks://'' @ v @ CHR ''/'' # r)
        = Some (UdisksStorage_new (''udisks://'' @ v @ CHR ''/'' # r) v) \<and>
      map_option (base_uri_update (\<lambda>_. ''udisks://'' @ v))
         (CreateUdisksStorageURI (''udisks://'' @ v @ CHR ''/'' # r))
        = CreateUdisksStorageURI (''udisks://'' @ v))"
proof -
  have A: "\<not> prefix ''udisks://'' uri \<longrightarrow> CreateUdisksStorageURI uri = None"
    by (simp add: CreateUdisksStorageURI_def StringAfterPrefix_def)
  have B: "CreateUdisksStorageURI (''udisks://'' @ v) = Some (UdisksStorage_new (''udisks://'' @ v) v)"
    if "CHR ''/'' \<notin> set v"
    using strchr_none [OF that] StringAfterPrefix_append [of "''udisks://''" v]
    by (simp add: CreateUdisksStorageURI_def del: append.simps)
  have C: "CreateUdisksStorageURI (''udisks://'' @ v @ CHR ''/'' # r)
        = Some (UdisksStorage_new (''udisks://'' @ v @ CHR ''/'' # r) v)"
    if "CHR ''/'' \<notin> set v"
    using strchr_some [OF that, of r] StringAfterPrefix_append [of "''udisks://''" "v @ CHR ''/'' # r"]
    by (simp add: CreateUdisksStorageURI_def del: append.simps)
  from A B C show ?thesis
    by (auto simp: UdisksStorage_new_def simp del: append.simps)
qed

theorem CreateUdisksStorageURI_volume_reference_witness:
  "CreateUdisksStorageURI ''file:///media/abc'' = None \<and>
   CreateUdisksStorageURI ''udisks://abc'' = Some (UdisksStorage_new ''udisks://abc'' ''abc'') \<and>
   CreateUdisksStorageURI ''udisks://abc/music/new''
     = Some (UdisksStorage_new ''udisks://abc/music/new'' ''abc'')"
  using CreateUdisksStorageURI_volume_reference [of "''file:///media/abc''" "''abc''" "''music/new''"]
  by simp

section \<open>The delegate and the recorded error\<close>

text \<open>
  Claim C10. In every state the object can reach, the recorded error
  (\<open>mount_error\<close>) and the delegate (\<open>mounted_storage\<close>) are never both set.
  Consequently, when \<open>MountWait\<close> returns at once because the storage is mounted,
  there is no recorded error that it skips.
\<close>

theorem no_error_while_mounted:
  "run es (system_new b i) = Some c \<Longrightarrow>
   \<not> (mount_error (storage c) \<noteq> None \<and> mounted_storage (storage c) \<noteq> None) \<and>
   (mounted_storage (storage c) \<noteq> None \<longrightarrow>
      MountWait Call t (storage c) = (storage c, Returned ()) \<and> mount_error (storage c) = None)"
  by (auto dest!: Inv_reachable simp: Inv_def)

text \<open>
  After the example run the delegate is set, no error is recorded, and a call of
  \<open>MountWait\<close> by thread 2 returns at once and leaves the object as it is.
\<close>

theorem no_error_while_mounted_witness:
  "map_option (mounted_storage \<circ> storage) (run mount_abc abc_new)
     = Some (Some (CreateLocalStorage ''/media/abc'')) \<and>
   map_option (mount_error \<circ> storage) (run mount_abc abc_new) = Some None \<and>
   map_option (snd \<circ> MountWait Call 2 \<circ> storage) (run mount_abc abc_new) = Some (Returned ()) \<and>
   map_option (fst \<circ> MountWait Call 2 \<circ> storage) (run mount_abc abc_new)
     = map_option storage (run mount_abc abc_new)"
  using no_error_while_mounted
          [of mount_abc "''udisks://abc''" "''abc''" "the (run mount_abc abc_new)" 2]
  by (simp add: run_defs)

end
